theory Spec2Isabelle
  imports Main
begin

section \<open>Strings, JavaScript values and the host\<close>

text \<open>
  The module under verification is \<^verbatim>\<open>src/whatsapp/utils.ts\<close>. A JavaScript string is
  modelled as a \<^typ>\<open>string\<close>: one \<^typ>\<open>char\<close> per UTF-16 code unit, for code units
  below 256. The regular-expression class \<^verbatim>\<open>\d\<close> (no \<^verbatim>\<open>u\<close> flag) is the ten ASCII
  digits; \<^verbatim>\<open>String.prototype.trim\<close> removes white space and line terminators, which
  below 256 are the code units 9 to 13, 32 and 160.
\<close>

definition digit :: "char \<Rightarrow> bool" where
  "digit c = (c \<in> set ''0123456789'')"

definition whitespace :: "char \<Rightarrow> bool" where
  "whitespace c = (c \<in> set [CHR 0x09, CHR 0x0A, CHR 0x0B, CHR 0x0C, CHR 0x0D, CHR 0x20, CHR 0xA0])"

definition trim :: "string \<Rightarrow> string" where
  "trim s = rev (dropWhile whitespace (rev (dropWhile whitespace s)))"

definition startsWith :: "string \<Rightarrow> string \<Rightarrow> bool" where
  "startsWith s p = (take (length p) s = p)"

definition endsWith :: "string \<Rightarrow> string \<Rightarrow> bool" where
  "endsWith s p = (length p \<le> length s \<and> drop (length s - length p) s = p)"

text \<open>
  A thrown value, as far as \<^verbatim>\<open>String(err)\<close> can tell: \<open>Error msg\<close> is a value that
  \<^verbatim>\<open>String\<close> renders as \<open>msg\<close>; \<open>NoString e\<close> is a value whose conversion throws
  \<open>e\<close> itself, as for \<^verbatim>\<open>Object.create(null)\<close> or an object whose \<^verbatim>\<open>toString\<close> is not
  callable (a TypeError) or throws.
\<close>

datatype exn = Error string | NoString exn

text \<open>
  What \<^verbatim>\<open>JSON.parse\<close> returns. A number is kept as the text \<^verbatim>\<open>String\<close> gives for
  it, an object as its own properties in order.
\<close>

datatype json =
    JNull
  | JBool bool
  | JNumber string
  | JString string
  | JArray "json list"
  | JObject "(string \<times> json) list"

fun scalar :: "json \<Rightarrow> bool" where
  "scalar (JBool b) = True"
| "scalar (JNumber n) = True"
| "scalar (JString s) = True"
| "scalar v = False"

fun join_comma :: "(exn + string) list \<Rightarrow> exn + string" where
  "join_comma [] = Inr []"
| "join_comma [x] = x"
| "join_comma (x # y # ys) =
     (case x of
        Inl e \<Rightarrow> Inl e
      | Inr s \<Rightarrow> (case join_comma (y # ys) of Inl e \<Rightarrow> Inl e | Inr t \<Rightarrow> Inr (s @ '','' @ t)))"

text \<open>
  \<^verbatim>\<open>String(v)\<close> on a parsed JSON value: a string is itself, an array joins its
  elements with commas (null elements as the empty string), an object is
  \<^verbatim>\<open>[object Object]\<close> unless an own property hides \<^verbatim>\<open>toString\<close>, in which case the
  conversion throws a TypeError.
\<close>

fun String_js :: "json \<Rightarrow> exn + string" where
  "String_js JNull = Inr ''null''"
| "String_js (JBool b) = Inr (if b then ''true'' else ''false'')"
| "String_js (JNumber n) = Inr n"
| "String_js (JString s) = Inr s"
| "String_js (JArray xs) =
     join_comma (map (\<lambda>x. if x = JNull then Inr [] else String_js x) xs)"
| "String_js (JObject kvs) =
     (if ''toString'' \<in> set (map fst kvs)
      then Inl (Error ''TypeError: Cannot convert object to primitive value'')
      else Inr ''[object Object]'')"

text \<open>
  The collaborators the module imports and the runtime functions it calls, none of which
  is part of \<^verbatim>\<open>src/whatsapp/utils.ts\<close>: the configuration queries
  (\<^verbatim>\<open>CONFIG_DIR\<close>, \<^verbatim>\<open>resolveOAuthDir()\<close>, \<^verbatim>\<open>resolveUserPath\<close>), the normalizer
  \<^verbatim>\<open>normalizeE164\<close> (which may throw), the verbose flag \<^verbatim>\<open>shouldLogVerbose()\<close>,
  and Node's \<^verbatim>\<open>path.join\<close>, \<^verbatim>\<open>fs.readFileSync(_, "utf8")\<close> and \<^verbatim>\<open>JSON.parse\<close>.
  The file system state is the function \<open>readFileSync\<close>.
\<close>

record host =
  CONFIG_DIR :: string
  resolveOAuthDir :: string
  resolveUserPath :: "string \<Rightarrow> string"
  normalizeE164 :: "string \<Rightarrow> exn + string"
  shouldLogVerbose :: bool
  path_join :: "string \<Rightarrow> string \<Rightarrow> string"
  readFileSync :: "string \<Rightarrow> exn + string"
  JSON_parse :: "string \<Rightarrow> exn + json"

text \<open>The observable effects of a call, in the order they happen.\<close>

datatype event =
    ReadFile string
  | LogVerbose string
  | LookupCall string

section \<open>Options\<close>

record JidToE164Options =
  authDir :: "string option"
  lidMappingDirs :: "string list option"
  logMissing :: "bool option"

text \<open>
  The outcome of calling the injected \<^verbatim>\<open>getPNForLID\<close> and awaiting its promise: it
  throws before returning a promise, the promise rejects, it resolves to a string or to
  null, or it never settles.
\<close>

datatype lookup_outcome =
    Throws exn
  | Rejects exn
  | Resolves "string option"
  | NeverSettles

record LidLookup =
  getPNForLID :: "(string \<Rightarrow> lookup_outcome) option"

record ResolveOptions = JidToE164Options +
  lidLookup :: "LidLookup option"

text \<open>How the promise of an \<^verbatim>\<open>async\<close> function ends.\<close>

datatype 'a promise =
    Fulfilled 'a
  | Rejected exn
  | Pending

text \<open>\<^verbatim>\<open>opts?.authDir\<close>, \<^verbatim>\<open>opts?.lidMappingDirs ?? []\<close>, \<^verbatim>\<open>opts?.logMissing\<close>,
  \<^verbatim>\<open>opts?.lidLookup?.getPNForLID\<close>.\<close>

definition opt_authDir :: "'a JidToE164Options_scheme option \<Rightarrow> string option" where
  "opt_authDir opts = (case opts of None \<Rightarrow> None | Some ob \<Rightarrow> authDir ob)"

definition opt_lidMappingDirs :: "'a JidToE164Options_scheme option \<Rightarrow> string list" where
  "opt_lidMappingDirs opts =
     (case opts of
        None \<Rightarrow> []
      | Some ob \<Rightarrow> (case lidMappingDirs ob of None \<Rightarrow> [] | Some ds \<Rightarrow> ds))"

definition opt_logMissing :: "'a JidToE164Options_scheme option \<Rightarrow> bool option" where
  "opt_logMissing opts = (case opts of None \<Rightarrow> None | Some ob \<Rightarrow> logMissing ob)"

definition opt_getPNForLID ::
  "'a ResolveOptions_scheme option \<Rightarrow> (string \<Rightarrow> lookup_outcome) option" where
  "opt_getPNForLID opts =
     (case opts of
        None \<Rightarrow> None
      | Some ob \<Rightarrow> (case lidLookup ob of None \<Rightarrow> None | Some l \<Rightarrow> getPNForLID l))"

text \<open>Truthiness of a \<^verbatim>\<open>string | null | undefined\<close>: only a non-empty string is truthy.\<close>

fun truthy :: "string option \<Rightarrow> bool" where
  "truthy None = False"
| "truthy (Some s) = (s \<noteq> [])"

section \<open>withWhatsAppPrefix and toWhatsappJid\<close>

definition withWhatsAppPrefix :: "string \<Rightarrow> string" where
  "withWhatsAppPrefix number =
     (if startsWith number ''whatsapp:'' then number else ''whatsapp:'' @ number)"

text \<open>\<^verbatim>\<open>number.replace(/^whatsapp:/, "").trim()\<close>\<close>

definition withoutPrefix :: "string \<Rightarrow> string" where
  "withoutPrefix number =
     trim (if startsWith number ''whatsapp:'' then drop (length ''whatsapp:'') number else number)"

definition toWhatsappJid :: "host \<Rightarrow> string \<Rightarrow> exn + string" where
  "toWhatsappJid h number =
     (let wp = withoutPrefix number in
      if CHR ''@'' \<in> set wp then Inr wp
      else (case normalizeE164 h wp of
              Inl e \<Rightarrow> Inl e
            | Inr e164 \<Rightarrow> Inr (filter digit e164 @ ''@s.whatsapp.net'')))"

section \<open>resolveLidMappingDirs\<close>

text \<open>\<^verbatim>\<open>Set.prototype.add\<close> on a set kept in insertion order.\<close>

definition set_add :: "string list \<Rightarrow> string \<Rightarrow> string list" where
  "set_add dirs d = (if d \<in> set dirs then dirs else dirs @ [d])"

text \<open>\<^verbatim>\<open>if (!dir) return;\<close> leaves the set alone for undefined, null and the empty string.\<close>

definition addDir :: "host \<Rightarrow> string list \<Rightarrow> string option \<Rightarrow> string list" where
  "addDir h dirs dir =
     (case dir of
        None \<Rightarrow> dirs
      | Some d \<Rightarrow> if d = [] then dirs else set_add dirs (resolveUserPath h d))"

definition resolveLidMappingDirs :: "host \<Rightarrow> 'a JidToE164Options_scheme option \<Rightarrow> string list" where
  "resolveLidMappingDirs h opts =
     (let dirs0 = [];
          dirs1 = addDir h dirs0 (opt_authDir opts);
          dirs2 = foldl (\<lambda>dirs dir. addDir h dirs (Some dir)) dirs1 (opt_lidMappingDirs opts);
          dirs3 = addDir h dirs2 (Some (resolveOAuthDir h));
          dirs4 = addDir h dirs3 (Some (path_join h (CONFIG_DIR h) ''credentials''))
      in dirs4)"

section \<open>readLidReverseMapping\<close>

definition mappingFilename :: "string \<Rightarrow> string" where
  "mappingFilename lid = ''lid-mapping-'' @ lid @ ''_reverse.json''"

text \<open>
  The body of the \<^verbatim>\<open>try\<close> block for one path: \<open>Inl e\<close> when a call in it throws,
  \<open>Inr None\<close> for \<^verbatim>\<open>continue\<close>, \<open>Inr (Some p)\<close> for \<^verbatim>\<open>return p\<close>.
  \<^verbatim>\<open>JSON.parse\<close> never returns \<^verbatim>\<open>undefined\<close>, so the test
  \<^verbatim>\<open>phone === null || phone === undefined\<close> is the test for \<open>JNull\<close>.
\<close>

definition tryRead :: "host \<Rightarrow> string \<Rightarrow> exn + string option" where
  "tryRead h mappingPath =
     (case readFileSync h mappingPath of
        Inl e \<Rightarrow> Inl e
      | Inr data \<Rightarrow>
          (case JSON_parse h data of
             Inl e \<Rightarrow> Inl e
           | Inr phone \<Rightarrow>
               if phone = JNull then Inr None
               else (case String_js phone of
                       Inl e \<Rightarrow> Inl e
                     | Inr s \<Rightarrow>
                         (case normalizeE164 h s of
                            Inl e \<Rightarrow> Inl e
                          | Inr p \<Rightarrow> Inr (Some p)))))"

text \<open>The \<^verbatim>\<open>for\<close> loop over the directories; the \<^verbatim>\<open>catch\<close> goes on to the next one.\<close>

fun readLoop :: "host \<Rightarrow> string \<Rightarrow> string list \<Rightarrow> event list \<times> string option" where
  "readLoop h fname [] = ([], None)"
| "readLoop h fname (dir # dirs) =
     (let mappingPath = path_join h dir fname in
      case tryRead h mappingPath of
        Inr (Some p) \<Rightarrow> ([ReadFile mappingPath], Some p)
      | Inr None \<Rightarrow>
          (let (evs, r) = readLoop h fname dirs in (ReadFile mappingPath # evs, r))
      | Inl e \<Rightarrow>
          (let (evs, r) = readLoop h fname dirs in (ReadFile mappingPath # evs, r)))"

definition readLidReverseMapping ::
  "host \<Rightarrow> string \<Rightarrow> 'a JidToE164Options_scheme option \<Rightarrow> event list \<times> string option" where
  "readLidReverseMapping h lid opts =
     readLoop h (mappingFilename lid) (resolveLidMappingDirs h opts)"

section \<open>jidToE164\<close>

text \<open>
  The two patterns \<^verbatim>\<open>/^(\d+)(?::\d+)?@(s\.whatsapp\.net|hosted)$/\<close> and
  \<^verbatim>\<open>/^(\d+)(?::\d+)?@(lid|hosted\.lid)$/\<close> differ in the alternatives after the
  \<^verbatim>\<open>@\<close> only. \<open>matchJid servers jid\<close> is the first capture group when \<open>jid\<close> matches the
  pattern with the alternatives \<open>servers\<close>. A digit run cannot stop before a digit, so
  each \<^verbatim>\<open>\d+\<close> takes the whole run.
\<close>

definition matchJid :: "string list \<Rightarrow> string \<Rightarrow> string option" where
  "matchJid servers jid =
     (let ds = takeWhile digit jid; r = dropWhile digit jid in
      if ds = [] then None
      else (case r of
              [] \<Rightarrow> None
            | c # r1 \<Rightarrow>
                if c = CHR ''@'' then (if r1 \<in> set servers then Some ds else None)
                else if c = CHR '':'' then
                  (let dv = takeWhile digit r1; r2 = dropWhile digit r1 in
                   if dv = [] then None
                   else (case r2 of
                           [] \<Rightarrow> None
                         | a # srv \<Rightarrow> if a = CHR ''@'' \<and> srv \<in> set servers then Some ds else None))
                else None))"

definition jidToE164 ::
  "host \<Rightarrow> string \<Rightarrow> 'a JidToE164Options_scheme option \<Rightarrow> event list \<times> string option" where
  "jidToE164 h jid opts =
     (case matchJid [''s.whatsapp.net'', ''hosted''] jid of
        Some digits \<Rightarrow> ([], Some (''+'' @ digits))
      | None \<Rightarrow>
          (case matchJid [''lid'', ''hosted.lid''] jid of
             Some lid \<Rightarrow>
               (let (evs, phone) = readLidReverseMapping h lid opts in
                if truthy phone then (evs, phone)
                else
                  (let shouldLog =
                         (case opt_logMissing opts of Some b \<Rightarrow> b | None \<Rightarrow> shouldLogVerbose h)
                   in (evs @ (if shouldLog
                              then [LogVerbose (''LID mapping not found for '' @ lid @
                                                ''; skipping inbound message'')]
                              else []),
                       None)))
           | None \<Rightarrow> ([], None)))"

section \<open>resolveJidToE164\<close>

text \<open>\<^verbatim>\<open>/(@lid|@hosted\.lid)$/.test(jid)\<close>\<close>

definition lidSuffixed :: "string \<Rightarrow> bool" where
  "lidSuffixed jid = (endsWith jid ''@lid'' \<or> endsWith jid ''@hosted.lid'')"

text \<open>
  The \<^verbatim>\<open>catch (err)\<close> block. When verbose logging is on, the message is built with
  \<^verbatim>\<open>String(err)\<close> before \<^verbatim>\<open>logVerbose\<close> is called; a throw in that conversion
  leaves the \<^verbatim>\<open>async\<close> function, whose promise then rejects.
\<close>

definition catchLookup :: "host \<Rightarrow> string \<Rightarrow> exn \<Rightarrow> event list \<times> string option promise" where
  "catchLookup h jid err =
     (if shouldLogVerbose h
      then (case err of
              Error msg \<Rightarrow>
                ([LogVerbose (''LID mapping lookup failed for '' @ jid @ '': '' @ msg)],
                 Fulfilled None)
            | NoString e \<Rightarrow> ([], Rejected e))
      else ([], Fulfilled None))"

definition resolveJidToE164 ::
  "host \<Rightarrow> string option \<Rightarrow> 'a ResolveOptions_scheme option \<Rightarrow>
   event list \<times> string option promise" where
  "resolveJidToE164 h jid opts =
     (case jid of
        None \<Rightarrow> ([], Fulfilled None)
      | Some j \<Rightarrow>
          if j = [] then ([], Fulfilled None)
          else
            (let (evs, direct) = jidToE164 h j opts in
             if truthy direct then (evs, Fulfilled direct)
             else if \<not> lidSuffixed j then (evs, Fulfilled None)
             else (case opt_getPNForLID opts of
                     None \<Rightarrow> (evs, Fulfilled None)
                   | Some lookup \<Rightarrow>
                       (case lookup j of
                          Throws err \<Rightarrow>
                            (let (evs1, r) = catchLookup h j err in (evs @ LookupCall j # evs1, r))
                        | Rejects err \<Rightarrow>
                            (let (evs1, r) = catchLookup h j err in (evs @ LookupCall j # evs1, r))
                        | NeverSettles \<Rightarrow> (evs @ [LookupCall j], Pending)
                        | Resolves None \<Rightarrow> (evs @ [LookupCall j], Fulfilled None)
                        | Resolves (Some pnJid) \<Rightarrow>
                            if pnJid = [] then (evs @ [LookupCall j], Fulfilled None)
                            else
                              (let (evs2, r) = jidToE164 h pnJid opts
                               in (evs @ LookupCall j # evs2, Fulfilled r))))))"

section \<open>The properties the specification states\<close>

text \<open>
  A directory misses for a mapping path when the file is missing or unreadable
  (\<open>readFileSync\<close> throws), is not valid JSON (\<open>JSON_parse\<close> throws) or holds the JSON
  value null.
\<close>

definition miss :: "host \<Rightarrow> string \<Rightarrow> bool" where
  "miss h mappingPath =
     (case readFileSync h mappingPath of
        Inl e \<Rightarrow> True
      | Inr data \<Rightarrow> (case JSON_parse h data of Inl e \<Rightarrow> True | Inr v \<Rightarrow> v = JNull))"

text \<open>
  A directory is skipped for a mapping path when it misses, or the parsed value cannot be
  converted by \<^verbatim>\<open>String\<close>, or the normalizer rejects the string.
\<close>

definition skips :: "host \<Rightarrow> string \<Rightarrow> bool" where
  "skips h mappingPath =
     (case readFileSync h mappingPath of
        Inl e \<Rightarrow> True
      | Inr data \<Rightarrow>
          (case JSON_parse h data of
             Inl e \<Rightarrow> True
           | Inr v \<Rightarrow>
               v = JNull \<or>
               (case String_js v of
                  Inl e \<Rightarrow> True
                | Inr s \<Rightarrow> (case normalizeE164 h s of Inl e \<Rightarrow> True | Inr p \<Rightarrow> False))))"

text \<open>
  The specification's priority list, before resolution and deduplication: the caller's
  auth directory, the caller's extra directories, the OAuth directory, the default
  credentials directory.
\<close>

definition priorityList :: "host \<Rightarrow> 'a JidToE164Options_scheme option \<Rightarrow> string list" where
  "priorityList h opts =
     (case opt_authDir opts of None \<Rightarrow> [] | Some d \<Rightarrow> [d]) @
     opt_lidMappingDirs opts @
     [resolveOAuthDir h, path_join h (CONFIG_DIR h) ''credentials'']"

text \<open>Deduplication in which the first occurrence of each entry keeps its place.\<close>

fun dedupFirst :: "'a list \<Rightarrow> 'a list" where
  "dedupFirst [] = []"
| "dedupFirst (x # xs) = x # dedupFirst (filter (\<lambda>y. y \<noteq> x) xs)"


section \<open>A concrete host and concrete options\<close>

text \<open>
  A host for the examples. The extra directory \<^verbatim>\<open>/extra\<close> and the OAuth directory
  \<^verbatim>\<open>/oauth\<close> both hold a reverse mapping for the LID 55512, with different numbers:
  the JSON number \<^verbatim>\<open>15551234567\<close> and the JSON string \<^verbatim>\<open>"15559999999"\<close>
  (code unit 0x22 is the double quote); \<^verbatim>\<open>/other\<close> holds the JSON value null for it.
  For the LID 4242 \<^verbatim>\<open>/extra\<close> holds the JSON scalar \<^verbatim>\<open>true\<close>, for the LID 31337
  it holds the JSON array \<^verbatim>\<open>[15550000000]\<close>, and for both \<^verbatim>\<open>/oauth\<close> holds the
  number \<^verbatim>\<open>15553334444\<close>. No other file exists, and \<open>example_parse\<close> is
  \<^verbatim>\<open>JSON.parse\<close> on these texts. The normalizer keeps the digits and rejects a string
  that has none.
\<close>

definition example_normalize :: "string \<Rightarrow> exn + string" where
  "example_normalize s =
     (if filter digit s = [] then Inl (Error ''Error: invalid phone number'')
      else Inr (''+'' @ filter digit s))"

definition example_files :: "string \<Rightarrow> exn + string" where
  "example_files p =
     (if p = ''/extra/lid-mapping-55512_reverse.json'' then Inr ''15551234567''
      else if p = ''/oauth/lid-mapping-55512_reverse.json''
        then Inr (CHR 0x22 # ''15559999999'' @ [CHR 0x22])
      else if p = ''/other/lid-mapping-55512_reverse.json'' then Inr ''null''
      else if p = ''/extra/lid-mapping-4242_reverse.json'' then Inr ''true''
      else if p = ''/oauth/lid-mapping-4242_reverse.json'' then Inr ''15553334444''
      else if p = ''/extra/lid-mapping-31337_reverse.json'' then Inr ''[15550000000]''
      else if p = ''/oauth/lid-mapping-31337_reverse.json'' then Inr ''15553334444''
      else Inl (Error ''Error: ENOENT: no such file or directory''))"

definition example_parse :: "string \<Rightarrow> exn + json" where
  "example_parse data =
     (if data = ''null'' then Inr JNull
      else if data = ''15551234567'' then Inr (JNumber ''15551234567'')
      else if data = CHR 0x22 # ''15559999999'' @ [CHR 0x22] then Inr (JString ''15559999999'')
      else if data = ''true'' then Inr (JBool True)
      else if data = ''15553334444'' then Inr (JNumber ''15553334444'')
      else if data = ''[15550000000]'' then Inr (JArray [JNumber ''15550000000''])
      else Inl (Error ''SyntaxError: Unexpected token''))"

definition example_join :: "string \<Rightarrow> string \<Rightarrow> string" where
  "example_join a b = a @ ''/'' @ b"

definition example_host :: host where
  "example_host =
     \<lparr>CONFIG_DIR = ''/cfg'',
      resolveOAuthDir = ''/oauth'',
      resolveUserPath = (\<lambda>d. d),
      normalizeE164 = example_normalize,
      shouldLogVerbose = True,
      path_join = example_join,
      readFileSync = example_files,
      JSON_parse = example_parse\<rparr>"

definition example_lookup :: "string \<Rightarrow> lookup_outcome" where
  "example_lookup jid =
     (if jid = ''777@lid'' then Resolves (Some ''15550001111:3@s.whatsapp.net'') else Resolves None)"

definition throwing_lookup :: "string \<Rightarrow> lookup_outcome" where
  "throwing_lookup jid = Throws (Error ''Error: not paired'')"

definition example_opts :: ResolveOptions where
  "example_opts =
     \<lparr>authDir = Some ''/auth'',
      lidMappingDirs = Some [''/extra'', ''/other'', ''/auth'', []],
      logMissing = None,
      lidLookup = Some \<lparr>getPNForLID = Some example_lookup\<rparr>\<rparr>"

definition throwing_opts :: ResolveOptions where
  "throwing_opts = example_opts\<lparr>lidLookup := Some \<lparr>getPNForLID = Some throwing_lookup\<rparr>\<rparr>"

definition no_lookup_opts :: ResolveOptions where
  "no_lookup_opts = example_opts\<lparr>lidLookup := None\<rparr>"

text \<open>
  A capability whose promise rejects with a value that \<^verbatim>\<open>String\<close> cannot render, such
  as \<^verbatim>\<open>Promise.reject(Object.create(null))\<close>.
\<close>

definition unprintable_lookup :: "string \<Rightarrow> lookup_outcome" where
  "unprintable_lookup jid =
     Rejects (NoString (Error ''TypeError: Cannot convert object to primitive value''))"

definition unprintable_opts :: ResolveOptions where
  "unprintable_opts =
     example_opts\<lparr>lidLookup := Some \<lparr>getPNForLID = Some unprintable_lookup\<rparr>\<rparr>"



section \<open>The two patterns\<close>

lemma digit_at: "\<not> digit (CHR ''@'')" "\<not> digit (CHR '':'')" "\<not> digit (CHR ''+'')"
  by (simp_all add: digit_def)

lemma takeWhile_digits:
  "\<forall>c\<in>set d. digit c \<Longrightarrow> \<not> digit x \<Longrightarrow> takeWhile digit (d @ x # r) = d"
  by (simp add: takeWhile_append2)

lemma dropWhile_digits:
  "\<forall>c\<in>set d. digit c \<Longrightarrow> \<not> digit x \<Longrightarrow> dropWhile digit (d @ x # r) = x # r"
  by (simp add: dropWhile_append2)

lemma matchJid_plain:
  assumes "d \<noteq> []" "\<forall>c\<in>set d. digit c" "srv \<in> set servers"
  shows "matchJid servers (d @ CHR ''@'' # srv) = Some d"
  using assms by (simp add: matchJid_def takeWhile_digits dropWhile_digits digit_at)

lemma matchJid_device:
  assumes "d \<noteq> []" "\<forall>c\<in>set d. digit c" "s \<noteq> []" "\<forall>c\<in>set s. digit c" "srv \<in> set servers"
  shows "matchJid servers (d @ CHR '':'' # s @ CHR ''@'' # srv) = Some d"
  using assms by (simp add: matchJid_def takeWhile_digits dropWhile_digits digit_at)

lemma matchJid_SomeD:
  assumes "matchJid servers jid = Some d"
  shows "d \<noteq> [] \<and> (\<forall>c\<in>set d. digit c) \<and>
         (\<exists>srv\<in>set servers. jid = d @ CHR ''@'' # srv \<or>
            (\<exists>s. s \<noteq> [] \<and> (\<forall>c\<in>set s. digit c) \<and> jid = d @ CHR '':'' # s @ CHR ''@'' # srv))"
proof -
  let ?ds = "takeWhile digit jid" and ?r = "dropWhile digit jid"
  have split: "jid = ?ds @ ?r" by simp
  from assms have ne: "?ds \<noteq> []" by (auto simp: matchJid_def Let_def split: if_splits)
  from assms ne have d: "d = ?ds"
    by (auto simp: matchJid_def Let_def split: if_splits list.splits)
  have dig: "\<forall>c\<in>set ?ds. digit c" by (auto dest: set_takeWhileD)
  from assms ne obtain c r1 where r: "?r = c # r1"
    by (cases ?r) (auto simp: matchJid_def Let_def)
  show ?thesis
  proof (cases "c = CHR ''@''")
    case True
    with assms ne r have "r1 \<in> set servers"
      by (auto simp: matchJid_def Let_def split: if_splits)
    with True r split have "jid = ?ds @ CHR ''@'' # r1" by simp
    with \<open>r1 \<in> set servers\<close> have "\<exists>srv\<in>set servers. jid = ?ds @ CHR ''@'' # srv \<or>
        (\<exists>s. s \<noteq> [] \<and> (\<forall>c\<in>set s. digit c) \<and> jid = ?ds @ CHR '':'' # s @ CHR ''@'' # srv)"
      by (intro bexI [of _ r1]) simp_all
    with ne dig show ?thesis unfolding d by simp
  next
    case False
    let ?dv = "takeWhile digit r1" and ?r2 = "dropWhile digit r1"
    from False assms ne r have c: "c = CHR '':''"
      by (auto simp: matchJid_def Let_def split: if_splits)
    from False assms ne r c have dv: "?dv \<noteq> []"
      by (auto simp: matchJid_def Let_def split: if_splits)
    from False assms ne r c dv obtain srv where r2: "?r2 = CHR ''@'' # srv" "srv \<in> set servers"
      by (auto simp: matchJid_def Let_def split: if_splits list.splits)
    have "r1 = ?dv @ ?r2" by simp
    with r2 have "r1 = ?dv @ CHR ''@'' # srv" by simp
    with split r c have j: "jid = ?ds @ CHR '':'' # ?dv @ CHR ''@'' # srv" by simp
    have dvd: "\<forall>c\<in>set ?dv. digit c" by (auto dest: set_takeWhileD)
    from dv dvd j have "\<exists>s. s \<noteq> [] \<and> (\<forall>c\<in>set s. digit c) \<and>
        jid = ?ds @ CHR '':'' # s @ CHR ''@'' # srv" by (intro exI [of _ ?dv]) simp
    with r2(2) have "\<exists>srv\<in>set servers. jid = ?ds @ CHR ''@'' # srv \<or>
        (\<exists>s. s \<noteq> [] \<and> (\<forall>c\<in>set s. digit c) \<and> jid = ?ds @ CHR '':'' # s @ CHR ''@'' # srv)"
      by (intro bexI [of _ srv]) simp_all
    with ne dig show ?thesis unfolding d by simp
  qed
qed

text \<open>
  \<open>matchJid\<close> accepts exactly the strings of the pattern
  \<^verbatim>\<open>^(\d+)(?::\d+)?@(server|...)$\<close> and returns the first group.
\<close>

lemma matchJid_iff:
  "matchJid servers jid = Some d \<longleftrightarrow>
     d \<noteq> [] \<and> (\<forall>c\<in>set d. digit c) \<and>
     (\<exists>srv\<in>set servers. jid = d @ CHR ''@'' # srv \<or>
        (\<exists>s. s \<noteq> [] \<and> (\<forall>c\<in>set s. digit c) \<and> jid = d @ CHR '':'' # s @ CHR ''@'' # srv))"
proof
  assume "matchJid servers jid = Some d"
  then show "d \<noteq> [] \<and> (\<forall>c\<in>set d. digit c) \<and>
     (\<exists>srv\<in>set servers. jid = d @ CHR ''@'' # srv \<or>
        (\<exists>s. s \<noteq> [] \<and> (\<forall>c\<in>set s. digit c) \<and> jid = d @ CHR '':'' # s @ CHR ''@'' # srv))"
    by (rule matchJid_SomeD)
next
  assume "d \<noteq> [] \<and> (\<forall>c\<in>set d. digit c) \<and>
     (\<exists>srv\<in>set servers. jid = d @ CHR ''@'' # srv \<or>
        (\<exists>s. s \<noteq> [] \<and> (\<forall>c\<in>set s. digit c) \<and> jid = d @ CHR '':'' # s @ CHR ''@'' # srv))"
  then obtain srv where d: "d \<noteq> []" "\<forall>c\<in>set d. digit c" and srv: "srv \<in> set servers"
    and jid: "jid = d @ CHR ''@'' # srv \<or>
        (\<exists>s. s \<noteq> [] \<and> (\<forall>c\<in>set s. digit c) \<and> jid = d @ CHR '':'' # s @ CHR ''@'' # srv)"
    by blast
  from jid show "matchJid servers jid = Some d"
  proof
    assume "jid = d @ CHR ''@'' # srv"
    with matchJid_plain [OF d srv] show ?thesis by simp
  next
    assume "\<exists>s. s \<noteq> [] \<and> (\<forall>c\<in>set s. digit c) \<and> jid = d @ CHR '':'' # s @ CHR ''@'' # srv"
    then obtain s where "s \<noteq> []" "\<forall>c\<in>set s. digit c" "jid = d @ CHR '':'' # s @ CHR ''@'' # srv"
      by blast
    with matchJid_device [OF d _ _ srv, of s] show ?thesis by simp
  qed
qed

section \<open>The directory set is the priority list, resolved and deduplicated\<close>

lemma set_set_add: "set (set_add dirs d) = insert d (set dirs)"
  by (auto simp: set_add_def)

lemma foldl_addDir:
  "foldl (\<lambda>dirs dir. addDir h dirs (Some dir)) acc ds =
   foldl set_add acc (map (resolveUserPath h) (filter (\<lambda>d. d \<noteq> []) ds))"
  by (induction ds arbitrary: acc) (simp_all add: addDir_def)

lemma foldl_set_add:
  "foldl set_add acc xs = acc @ dedupFirst (filter (\<lambda>x. x \<notin> set acc) xs)"
proof (induction xs arbitrary: acc)
  case Nil
  show ?case by simp
next
  case (Cons x xs)
  show ?case
  proof (cases "x \<in> set acc")
    case True
    then have "set_add acc x = acc" by (simp add: set_add_def)
    with True show ?thesis by (simp add: Cons.IH)
  next
    case False
    then have step: "set_add acc x = acc @ [x]" by (simp add: set_add_def)
    have "filter (\<lambda>y. y \<notin> set (acc @ [x])) xs = filter (\<lambda>y. y \<noteq> x) (filter (\<lambda>y. y \<notin> set acc) xs)"
      by (induction xs) auto
    with False show ?thesis by (simp add: step Cons.IH)
  qed
qed

lemma resolveLidMappingDirs_fold:
  "resolveLidMappingDirs h opts =
   foldl set_add [] (map (resolveUserPath h) (filter (\<lambda>d. d \<noteq> []) (priorityList h opts)))"
proof -
  have auth: "addDir h [] (opt_authDir opts) =
      foldl set_add [] (map (resolveUserPath h)
        (filter (\<lambda>d. d \<noteq> []) (case opt_authDir opts of None \<Rightarrow> [] | Some d \<Rightarrow> [d])))"
    by (cases "opt_authDir opts") (simp_all add: addDir_def)
  show ?thesis
    unfolding resolveLidMappingDirs_def Let_def priorityList_def auth foldl_addDir
    by (simp add: addDir_def)
qed

lemma set_dedupFirst: "set (dedupFirst xs) = set xs"
  by (induction xs rule: dedupFirst.induct) auto

lemma distinct_dedupFirst: "distinct (dedupFirst xs)"
  by (induction xs rule: dedupFirst.induct) (auto simp: set_dedupFirst)

text \<open>
  C7. Whatever the caller's auth directory and extra directories are, the list
  \<open>resolveLidMappingDirs\<close> returns is the priority list (auth directory, extra
  directories in order, OAuth directory, default credentials directory), each entry that is
  given (not absent and not the empty string) resolved by \<open>resolveUserPath\<close>, deduplicated
  by resolved path with the first occurrence keeping its place; no path occurs twice.
\<close>

theorem resolveLidMappingDirs_priority_dedup:
  "resolveLidMappingDirs h opts =
     dedupFirst (map (resolveUserPath h) (filter (\<lambda>d. d \<noteq> []) (priorityList h opts)))
   \<and> distinct (resolveLidMappingDirs h opts)"
proof -
  let ?given = "map (resolveUserPath h) (filter (\<lambda>d. d \<noteq> []) (priorityList h opts))"
  have "resolveLidMappingDirs h opts = foldl set_add [] ?given"
    by (rule resolveLidMappingDirs_fold)
  also have "\<dots> = [] @ dedupFirst (filter (\<lambda>x. x \<notin> set []) ?given)"
    by (rule foldl_set_add)
  also have "\<dots> = dedupFirst ?given" by simp
  finally have eq: "resolveLidMappingDirs h opts = dedupFirst ?given" .
  moreover have "distinct (dedupFirst ?given)" by (rule distinct_dedupFirst)
  ultimately show ?thesis by simp
qed

theorem resolveLidMappingDirs_priority_dedup_witness:
  "resolveLidMappingDirs example_host (Some example_opts) =
     [''/auth'', ''/extra'', ''/other'', ''/oauth'', ''/cfg/credentials'']
   \<and> priorityList example_host (Some example_opts) =
     [''/auth'', ''/extra'', ''/other'', ''/auth'', [], ''/oauth'', ''/cfg/credentials'']"
  using resolveLidMappingDirs_priority_dedup [of example_host "Some example_opts"]
  by (simp add: priorityList_def example_host_def example_opts_def opt_authDir_def
      opt_lidMappingDirs_def example_join_def)

text \<open>
  C10. For every combination of options the directory set holds the resolved default
  credentials directory, \<open>CONFIG_DIR\<close> joined with \<^verbatim>\<open>credentials\<close>, and so is not
  empty. Node's \<^verbatim>\<open>path.join\<close> never returns the empty string, which is the hypothesis
  on the host's \<open>path_join\<close>.
\<close>

theorem resolveLidMappingDirs_has_default:
  assumes "path_join h (CONFIG_DIR h) ''credentials'' \<noteq> []"
  shows "resolveUserPath h (path_join h (CONFIG_DIR h) ''credentials'')
           \<in> set (resolveLidMappingDirs h opts)
         \<and> resolveLidMappingDirs h opts \<noteq> []"
proof -
  have "resolveUserPath h (path_join h (CONFIG_DIR h) ''credentials'')
           \<in> set (resolveLidMappingDirs h opts)"
    using assms by (simp add: resolveLidMappingDirs_def Let_def addDir_def set_set_add)
  then show ?thesis by auto
qed

theorem resolveLidMappingDirs_has_default_witness:
  "path_join example_host (CONFIG_DIR example_host) ''credentials'' = ''/cfg/credentials''
   \<and> ''/cfg/credentials'' \<in> set (resolveLidMappingDirs example_host (None :: JidToE164Options option))
   \<and> resolveLidMappingDirs example_host (None :: JidToE164Options option) \<noteq> []"
  using resolveLidMappingDirs_has_default [of example_host "None :: JidToE164Options option"]
  by (simp add: example_host_def example_join_def)

section \<open>The scan over the directories\<close>

lemma miss_tryRead: "miss h p \<Longrightarrow> tryRead h p \<noteq> Inr (Some q)"
  by (auto simp: miss_def tryRead_def split: sum.splits)

lemma readLoop_skip:
  assumes "\<forall>q. tryRead h (path_join h dir f) \<noteq> Inr (Some q)"
  shows "readLoop h f (dir # dirs) =
         (ReadFile (path_join h dir f) # fst (readLoop h f dirs), snd (readLoop h f dirs))"
  using assms by (auto simp: Let_def split: sum.splits option.splits prod.splits)

lemma readLoop_hit:
  assumes "tryRead h (path_join h dir f) = Inr (Some p)"
  shows "readLoop h f (dir # dirs) = ([ReadFile (path_join h dir f)], Some p)"
  using assms by (simp add: Let_def)

lemma readLoop_skip_prefix:
  assumes "\<forall>d\<in>set pre. \<forall>q. tryRead h (path_join h d f) \<noteq> Inr (Some q)"
  shows "readLoop h f (pre @ rest) =
         (map (\<lambda>d. ReadFile (path_join h d f)) pre @ fst (readLoop h f rest),
          snd (readLoop h f rest))"
  using assms
proof (induction pre)
  case Nil
  show ?case by simp
next
  case (Cons d pre)
  then have "\<forall>q. tryRead h (path_join h d f) \<noteq> Inr (Some q)" by simp
  from readLoop_skip [OF this, of "pre @ rest"] Cons show ?case by simp
qed

lemma readLoop_all_miss:
  assumes "\<forall>d\<in>set dirs. \<forall>q. tryRead h (path_join h d f) \<noteq> Inr (Some q)"
  shows "readLoop h f dirs = (map (\<lambda>d. ReadFile (path_join h d f)) dirs, None)"
  using readLoop_skip_prefix [OF assms, of "[]"] by simp

lemma readLoop_result:
  "snd (readLoop h f dirs) = Some p \<Longrightarrow> \<exists>s. normalizeE164 h s = Inr p"
proof (induction dirs)
  case Nil
  then show ?case by simp
next
  case (Cons d dirs)
  show ?case
  proof (cases "\<exists>q. tryRead h (path_join h d f) = Inr (Some q)")
    case True
    then obtain q where q: "tryRead h (path_join h d f) = Inr (Some q)" by blast
    with Cons.prems have "q = p" by (simp add: readLoop_hit)
    with q show ?thesis
      by (auto simp: tryRead_def split: sum.splits if_splits)
  next
    case False
    then have "\<forall>q. tryRead h (path_join h d f) \<noteq> Inr (Some q)" by simp
    from readLoop_skip [OF this] Cons show ?thesis by simp
  qed
qed

lemma readLoop_events: "LookupCall x \<notin> set (fst (readLoop h f dirs))"
proof (induction dirs)
  case Nil
  show ?case by simp
next
  case (Cons d dirs)
  show ?case
  proof (cases "\<exists>q. tryRead h (path_join h d f) = Inr (Some q)")
    case True
    then show ?thesis by (auto simp: readLoop_hit)
  next
    case False
    then have "\<forall>q. tryRead h (path_join h d f) \<noteq> Inr (Some q)" by simp
    from readLoop_skip [OF this] Cons show ?thesis by simp
  qed
qed

lemma skips_tryRead: "skips h p \<Longrightarrow> tryRead h p \<noteq> Inr (Some q)"
  by (auto simp: skips_def tryRead_def split: sum.splits)

text \<open>
  C1, as stated, fails. In the directory \<^verbatim>\<open>/extra\<close> the file for the LID 4242 is read
  and parsed to the non-null scalar \<^verbatim>\<open>true\<close>, which the normalizer rejects: the scan
  goes on and returns the number of the later directory \<^verbatim>\<open>/oauth\<close>. And for the LID
  31337 the earlier directory holds an array, not a scalar, yet its coerced value is
  returned and the scalar of \<^verbatim>\<open>/oauth\<close> is never read.
\<close>

theorem readLidReverseMapping_first_scalar_counterexample:
  "readFileSync example_host ''/extra/lid-mapping-4242_reverse.json'' = Inr ''true''
   \<and> JSON_parse example_host ''true'' = Inr (JBool True)
   \<and> scalar (JBool True)
   \<and> readLidReverseMapping example_host ''4242'' (Some example_opts) =
       ([ReadFile ''/auth/lid-mapping-4242_reverse.json'',
         ReadFile ''/extra/lid-mapping-4242_reverse.json'',
         ReadFile ''/other/lid-mapping-4242_reverse.json'',
         ReadFile ''/oauth/lid-mapping-4242_reverse.json''],
        Some ''+15553334444'')
   \<and> readFileSync example_host ''/extra/lid-mapping-31337_reverse.json'' = Inr ''[15550000000]''
   \<and> JSON_parse example_host ''[15550000000]'' = Inr (JArray [JNumber ''15550000000''])
   \<and> \<not> scalar (JArray [JNumber ''15550000000''])
   \<and> readLidReverseMapping example_host ''31337'' (Some example_opts) =
       ([ReadFile ''/auth/lid-mapping-31337_reverse.json'',
         ReadFile ''/extra/lid-mapping-31337_reverse.json''],
        Some ''+15550000000'')"
proof -
  let ?h = example_host
  note ev = example_host_def example_join_def mappingFilename_def example_files_def
    example_parse_def example_normalize_def
  have dirs: "resolveLidMappingDirs ?h (Some example_opts) =
      [''/auth'', ''/extra'', ''/other'', ''/oauth'', ''/cfg/credentials'']"
    by (simp add: resolveLidMappingDirs_def example_host_def example_opts_def addDir_def
        set_add_def opt_authDir_def opt_lidMappingDirs_def example_join_def)
  have a: "readLidReverseMapping ?h ''4242'' (Some example_opts) =
       ([ReadFile ''/auth/lid-mapping-4242_reverse.json'',
         ReadFile ''/extra/lid-mapping-4242_reverse.json'',
         ReadFile ''/other/lid-mapping-4242_reverse.json'',
         ReadFile ''/oauth/lid-mapping-4242_reverse.json''],
        Some ''+15553334444'')"
    unfolding readLidReverseMapping_def dirs by (simp add: tryRead_def ev digit_def)
  have b: "readLidReverseMapping ?h ''31337'' (Some example_opts) =
       ([ReadFile ''/auth/lid-mapping-31337_reverse.json'',
         ReadFile ''/extra/lid-mapping-31337_reverse.json''],
        Some ''+15550000000'')"
    unfolding readLidReverseMapping_def dirs by (simp add: tryRead_def ev digit_def)
  from a b show ?thesis by (simp add: example_host_def example_files_def example_parse_def)
qed

text \<open>
  C1, amended. The scan tries the resolved directories in order and skips a directory
  whose file is missing or unreadable, is not valid JSON or holds null, or whose parsed
  value \<^verbatim>\<open>String\<close> cannot convert or the normalizer rejects. The first directory that
  is not skipped wins: let the resolved directory set be \<open>pre @ dir # post\<close>, where every
  directory of \<open>pre\<close> is skipped and the file of \<open>dir\<close> is read and parsed to a non-null
  value \<open>v\<close> that \<^verbatim>\<open>String\<close> converts to \<open>s\<close> and the normalizer accepts with result
  \<open>p\<close>. Then \<open>readLidReverseMapping\<close> returns \<open>p\<close>, and the files it reads are those of
  \<open>pre\<close> and of \<open>dir\<close>, in order: no directory of \<open>post\<close> is tried, whatever it holds. So
  of two directories that both hold an accepted number for the LID the earlier one
  decides.
\<close>

theorem readLidReverseMapping_first_accepted_wins:
  assumes dirs: "resolveLidMappingDirs h opts = pre @ dir # post"
    and pre: "\<forall>d\<in>set pre. skips h (path_join h d (mappingFilename lid))"
    and rd: "readFileSync h (path_join h dir (mappingFilename lid)) = Inr data"
    and parse: "JSON_parse h data = Inr v"
    and nonnull: "v \<noteq> JNull"
    and str: "String_js v = Inr s"
    and norm: "normalizeE164 h s = Inr p"
  shows "readLidReverseMapping h lid opts =
         (map (\<lambda>d. ReadFile (path_join h d (mappingFilename lid))) (pre @ [dir]), Some p)"
proof -
  let ?f = "mappingFilename lid"
  from pre have skip: "\<forall>d\<in>set pre. \<forall>q. tryRead h (path_join h d ?f) \<noteq> Inr (Some q)"
    by (simp add: skips_tryRead)
  from rd parse nonnull str norm have "tryRead h (path_join h dir ?f) = Inr (Some p)"
    by (simp add: tryRead_def)
  then have hit: "readLoop h ?f (dir # post) = ([ReadFile (path_join h dir ?f)], Some p)"
    by (rule readLoop_hit)
  show ?thesis
    unfolding readLidReverseMapping_def dirs readLoop_skip_prefix [OF skip] hit by simp
qed

theorem readLidReverseMapping_first_accepted_wins_witness:
  "resolveLidMappingDirs example_host (Some example_opts) =
     [''/auth'', ''/extra''] @ ''/other'' # [''/oauth'', ''/cfg/credentials'']
   \<and> skips example_host ''/auth/lid-mapping-4242_reverse.json''
   \<and> skips example_host ''/extra/lid-mapping-4242_reverse.json''
   \<and> skips example_host ''/other/lid-mapping-4242_reverse.json''
   \<and> readFileSync example_host ''/oauth/lid-mapping-4242_reverse.json'' = Inr ''15553334444''
   \<and> readLidReverseMapping example_host ''4242'' (Some example_opts) =
       ([ReadFile ''/auth/lid-mapping-4242_reverse.json'',
         ReadFile ''/extra/lid-mapping-4242_reverse.json'',
         ReadFile ''/other/lid-mapping-4242_reverse.json'',
         ReadFile ''/oauth/lid-mapping-4242_reverse.json''],
        Some ''+15553334444'')
   \<and> readFileSync example_host ''/oauth/lid-mapping-55512_reverse.json'' =
       Inr (CHR 0x22 # ''15559999999'' @ [CHR 0x22])
   \<and> readLidReverseMapping example_host ''55512'' (Some example_opts) =
       ([ReadFile ''/auth/lid-mapping-55512_reverse.json'',
         ReadFile ''/extra/lid-mapping-55512_reverse.json''],
        Some ''+15551234567'')"
proof -
  let ?h = example_host
  let ?f = "mappingFilename ''4242''" and ?g = "mappingFilename ''55512''"
  note ev = example_host_def example_join_def mappingFilename_def example_files_def
    example_parse_def example_normalize_def
  have dirs: "resolveLidMappingDirs ?h (Some example_opts) =
      [''/auth'', ''/extra'', ''/other''] @ ''/oauth'' # [''/cfg/credentials'']"
    by (simp add: resolveLidMappingDirs_def example_host_def example_opts_def addDir_def
        set_add_def opt_authDir_def opt_lidMappingDirs_def example_join_def)
  have pre: "\<forall>d\<in>set [''/auth'', ''/extra'', ''/other'']. skips ?h (path_join ?h d ?f)"
    by (simp add: skips_def ev digit_def)
  have rd: "readFileSync ?h (path_join ?h ''/oauth'' ?f) = Inr ''15553334444''"
    by (simp add: ev)
  have parse: "JSON_parse ?h ''15553334444'' = Inr (JNumber ''15553334444'')"
    by (simp add: ev)
  have nonnull: "JNumber ''15553334444'' \<noteq> JNull" by simp
  have str: "String_js (JNumber ''15553334444'') = Inr ''15553334444''" by simp
  have norm: "normalizeE164 ?h ''15553334444'' = Inr ''+15553334444''"
    by (simp add: ev digit_def)
  have dirs2: "resolveLidMappingDirs ?h (Some example_opts) =
      [''/auth''] @ ''/extra'' # [''/other'', ''/oauth'', ''/cfg/credentials'']"
    using dirs by simp
  have pre2: "\<forall>d\<in>set [''/auth'']. skips ?h (path_join ?h d ?g)"
    by (simp add: skips_def ev)
  have rd2: "readFileSync ?h (path_join ?h ''/extra'' ?g) = Inr ''15551234567''"
    by (simp add: ev)
  have parse2: "JSON_parse ?h ''15551234567'' = Inr (JNumber ''15551234567'')"
    by (simp add: ev)
  have nonnull2: "JNumber ''15551234567'' \<noteq> JNull" by simp
  have str2: "String_js (JNumber ''15551234567'') = Inr ''15551234567''" by simp
  have norm2: "normalizeE164 ?h ''15551234567'' = Inr ''+15551234567''"
    by (simp add: ev digit_def)
  have other: "readFileSync ?h ''/oauth/lid-mapping-55512_reverse.json'' =
      Inr (CHR 0x22 # ''15559999999'' @ [CHR 0x22])"
    by (simp add: ev)
  from readLidReverseMapping_first_accepted_wins [OF dirs pre rd parse nonnull str norm]
    readLidReverseMapping_first_accepted_wins [OF dirs2 pre2 rd2 parse2 nonnull2 str2 norm2]
    dirs pre rd other
  show ?thesis by (simp add: ev)
qed

section \<open>Decoding a JID\<close>

lemma matchJid_disjoint:
  assumes "matchJid a jid = Some d" "set a \<inter> set b = {}"
  shows "matchJid b jid = None"
  using assms by (auto simp: matchJid_def Let_def split: if_splits list.splits)

lemma endsWith_append: "endsWith (xs @ p) p"
  by (simp add: endsWith_def)

lemma matchJid_lid_suffixed:
  assumes "matchJid [''lid'', ''hosted.lid''] jid = Some lid"
  shows "lidSuffixed jid"
proof -
  from matchJid_SomeD [OF assms] obtain srv where srv: "srv \<in> set [''lid'', ''hosted.lid'']"
    and "jid = lid @ CHR ''@'' # srv \<or> (\<exists>s. jid = lid @ CHR '':'' # s @ CHR ''@'' # srv)"
    by blast
  then obtain xs where "jid = xs @ CHR ''@'' # srv" by auto
  moreover have "endsWith (xs @ ''@lid'') ''@lid''" "endsWith (xs @ ''@hosted.lid'') ''@hosted.lid''"
    by (rule endsWith_append)+
  ultimately show ?thesis using srv by (auto simp: lidSuffixed_def)
qed

lemma jidToE164_direct_match:
  "matchJid [''s.whatsapp.net'', ''hosted''] jid = Some d \<Longrightarrow> jidToE164 h jid opts = ([], Some (''+'' @ d))"
  by (simp add: jidToE164_def)

lemma jidToE164_lid_match:
  assumes "matchJid [''lid'', ''hosted.lid''] jid = Some lid"
  shows "jidToE164 h jid opts =
     (let (evs, phone) = readLidReverseMapping h lid opts in
      if truthy phone then (evs, phone)
      else (evs @ (if (case opt_logMissing opts of Some b \<Rightarrow> b | None \<Rightarrow> shouldLogVerbose h)
                   then [LogVerbose (''LID mapping not found for '' @ lid @ ''; skipping inbound message'')]
                   else []), None))"
proof -
  have "matchJid [''s.whatsapp.net'', ''hosted''] jid = None"
    by (rule matchJid_disjoint [OF assms]) simp
  with assms show ?thesis by (simp add: jidToE164_def Let_def split: prod.splits)
qed

lemma jidToE164_result:
  "snd (jidToE164 h jid opts) = Some p \<Longrightarrow>
   p \<noteq> [] \<and> ((\<exists>d. d \<noteq> [] \<and> (\<forall>c\<in>set d. digit c) \<and> p = ''+'' @ d) \<or> (\<exists>s. normalizeE164 h s = Inr p))"
proof (cases "matchJid [''s.whatsapp.net'', ''hosted''] jid")
  case (Some d)
  assume "snd (jidToE164 h jid opts) = Some p"
  with Some matchJid_SomeD [OF Some] show ?thesis
    by (auto simp: jidToE164_def)
next
  case None
  assume p: "snd (jidToE164 h jid opts) = Some p"
  show ?thesis
  proof (cases "matchJid [''lid'', ''hosted.lid''] jid")
    case None
    with \<open>matchJid [''s.whatsapp.net'', ''hosted''] jid = None\<close> p show ?thesis
      by (simp add: jidToE164_def)
  next
    case (Some lid)
    obtain evs phone where r: "readLidReverseMapping h lid opts = (evs, phone)"
      by (cases "readLidReverseMapping h lid opts")
    with p have "phone = Some p" "p \<noteq> []"
      by (auto simp: jidToE164_lid_match [OF Some] split: if_splits)
    moreover from r \<open>phone = Some p\<close> have "\<exists>s. normalizeE164 h s = Inr p"
      using readLoop_result [of h "mappingFilename lid" "resolveLidMappingDirs h opts" p]
      by (simp add: readLidReverseMapping_def)
    ultimately show ?thesis by blast
  qed
qed

lemma jidToE164_truthy: "truthy (snd (jidToE164 h jid opts)) = (snd (jidToE164 h jid opts) \<noteq> None)"
proof (cases "snd (jidToE164 h jid opts)")
  case None
  then show ?thesis by simp
next
  case (Some p)
  with jidToE164_result [OF Some] show ?thesis by simp
qed

lemma jidToE164_no_lookup: "LookupCall x \<notin> set (fst (jidToE164 h jid opts))"
proof (cases "matchJid [''s.whatsapp.net'', ''hosted''] jid")
  case (Some d)
  then show ?thesis by (simp add: jidToE164_def)
next
  case None
  show ?thesis
  proof (cases "matchJid [''lid'', ''hosted.lid''] jid")
    case None
    with \<open>matchJid [''s.whatsapp.net'', ''hosted''] jid = None\<close> show ?thesis
      by (simp add: jidToE164_def)
  next
    case (Some lid)
    obtain evs phone where r: "readLidReverseMapping h lid opts = (evs, phone)"
      by (cases "readLidReverseMapping h lid opts")
    then have "LookupCall x \<notin> set evs"
      using readLoop_events [of x h "mappingFilename lid" "resolveLidMappingDirs h opts"]
      by (simp add: readLidReverseMapping_def)
    with r show ?thesis by (simp add: jidToE164_lid_match [OF Some])
  qed
qed

lemma jidToE164_no_mapping:
  assumes lid: "matchJid [''lid'', ''hosted.lid''] jid = Some lid"
    and nomap: "\<forall>d\<in>set (resolveLidMappingDirs h opts). miss h (path_join h d (mappingFilename lid))"
  shows "snd (jidToE164 h jid opts) = None"
proof -
  from nomap have "\<forall>d\<in>set (resolveLidMappingDirs h opts).
      \<forall>q. tryRead h (path_join h d (mappingFilename lid)) \<noteq> Inr (Some q)"
    by (simp add: miss_tryRead)
  from readLoop_all_miss [OF this] show ?thesis
    by (simp add: jidToE164_lid_match [OF lid] readLidReverseMapping_def)
qed


text \<open>
  C4. A decode has two outcomes, for every input string and every file system state:
  null, or a non-empty string that is \<open>+\<close> and the JID's digits or a result of the
  normalizer. Nothing is thrown: a directory whose file is missing or unreadable, is not
  valid JSON or holds null, and any directory for which a call inside the \<^verbatim>\<open>try\<close>
  block throws, is skipped by the scan, which goes on with the directories after it;
  and when every resolved directory misses the lookup gives null.
\<close>

theorem jidToE164_two_outcomes:
  "(snd (jidToE164 h jid opts) = None
     \<or> (\<exists>p. snd (jidToE164 h jid opts) = Some p \<and> p \<noteq> [] \<and>
            ((\<exists>d. d \<noteq> [] \<and> (\<forall>c\<in>set d. digit c) \<and> p = ''+'' @ d)
             \<or> (\<exists>s. normalizeE164 h s = Inr p))))
   \<and> (miss h (path_join h dir f) \<or> (\<exists>e. tryRead h (path_join h dir f) = Inl e) \<longrightarrow>
        readLoop h f (dir # dirs) =
          (ReadFile (path_join h dir f) # fst (readLoop h f dirs), snd (readLoop h f dirs)))
   \<and> ((\<forall>d\<in>set (resolveLidMappingDirs h opts). miss h (path_join h d (mappingFilename lid))) \<longrightarrow>
        snd (readLidReverseMapping h lid opts) = None)"
proof (intro conjI impI)
  show "snd (jidToE164 h jid opts) = None
     \<or> (\<exists>p. snd (jidToE164 h jid opts) = Some p \<and> p \<noteq> [] \<and>
            ((\<exists>d. d \<noteq> [] \<and> (\<forall>c\<in>set d. digit c) \<and> p = ''+'' @ d)
             \<or> (\<exists>s. normalizeE164 h s = Inr p)))"
  proof (cases "snd (jidToE164 h jid opts)")
    case None
    then show ?thesis by simp
  next
    case (Some p)
    with jidToE164_result [OF Some] show ?thesis by simp
  qed
next
  assume "miss h (path_join h dir f) \<or> (\<exists>e. tryRead h (path_join h dir f) = Inl e)"
  then have "\<forall>q. tryRead h (path_join h dir f) \<noteq> Inr (Some q)"
    by (auto simp: miss_tryRead)
  then show "readLoop h f (dir # dirs) =
      (ReadFile (path_join h dir f) # fst (readLoop h f dirs), snd (readLoop h f dirs))"
    by (rule readLoop_skip)
next
  assume "\<forall>d\<in>set (resolveLidMappingDirs h opts). miss h (path_join h d (mappingFilename lid))"
  then have "\<forall>d\<in>set (resolveLidMappingDirs h opts).
      \<forall>q. tryRead h (path_join h d (mappingFilename lid)) \<noteq> Inr (Some q)"
    by (simp add: miss_tryRead)
  from readLoop_all_miss [OF this] show "snd (readLidReverseMapping h lid opts) = None"
    by (simp add: readLidReverseMapping_def)
qed

theorem jidToE164_two_outcomes_witness:
  "miss example_host (path_join example_host ''/other'' (mappingFilename ''55512''))
   \<and> readLoop example_host (mappingFilename ''55512'') [''/other'', ''/oauth''] =
       ([ReadFile ''/other/lid-mapping-55512_reverse.json'',
         ReadFile ''/oauth/lid-mapping-55512_reverse.json''],
        Some ''+15559999999'')
   \<and> snd (readLidReverseMapping example_host ''777'' (Some example_opts)) = None
   \<and> snd (jidToE164 example_host ''777@lid'' (Some example_opts)) = None"
proof -
  let ?h = example_host
  note ev = example_host_def example_join_def mappingFilename_def example_files_def
    example_parse_def example_normalize_def
  have m: "miss ?h (path_join ?h ''/other'' (mappingFilename ''55512''))"
    by (simp add: miss_def ev)
  have dirs: "resolveLidMappingDirs ?h (Some example_opts) =
      [''/auth'', ''/extra'', ''/other'', ''/oauth'', ''/cfg/credentials'']"
    by (simp add: resolveLidMappingDirs_def example_host_def example_opts_def addDir_def
        set_add_def opt_authDir_def opt_lidMappingDirs_def example_join_def)
  have all: "\<forall>d\<in>set (resolveLidMappingDirs ?h (Some example_opts)).
      miss ?h (path_join ?h d (mappingFilename ''777''))"
    unfolding dirs by (simp add: miss_def ev)
  have lid: "matchJid [''lid'', ''hosted.lid''] ''777@lid'' = Some ''777''"
    by (simp add: matchJid_def digit_def)
  have last: "readLoop ?h (mappingFilename ''55512'') [''/oauth''] =
      ([ReadFile ''/oauth/lid-mapping-55512_reverse.json''], Some ''+15559999999'')"
    by (simp add: tryRead_def ev digit_def)
  from jidToE164_two_outcomes [of ?h "''777@lid''" "Some example_opts" "''/other''"
      "mappingFilename ''55512''" "[''/oauth'']" "''777''"] m all last
    jidToE164_no_mapping [OF lid all]
  show ?thesis by (simp add: ev)
qed

text \<open>
  C5. For every digit sequence \<open>d\<close> (a match of \<^verbatim>\<open>\d+\<close>, so not empty) and every
  numeric device suffix \<open>s\<close>, \<open>jidToE164\<close> of \<open>d:s@s.whatsapp.net\<close> and of
  \<open>d@s.whatsapp.net\<close> is \<open>+d\<close>: the device suffix is ignored, nothing is read or logged,
  and the same holds for \<open>@hosted\<close>.
\<close>

theorem jidToE164_direct:
  assumes "d \<noteq> []" "\<forall>c\<in>set d. digit c" "s \<noteq> []" "\<forall>c\<in>set s. digit c"
  shows "jidToE164 h (d @ '':'' @ s @ ''@s.whatsapp.net'') opts = ([], Some (''+'' @ d))
       \<and> jidToE164 h (d @ ''@s.whatsapp.net'') opts = ([], Some (''+'' @ d))
       \<and> jidToE164 h (d @ '':'' @ s @ ''@hosted'') opts = ([], Some (''+'' @ d))
       \<and> jidToE164 h (d @ ''@hosted'') opts = ([], Some (''+'' @ d))"
proof -
  let ?servers = "[''s.whatsapp.net'', ''hosted'']"
  have "matchJid ?servers (d @ CHR '':'' # s @ CHR ''@'' # ''s.whatsapp.net'') = Some d"
    by (rule matchJid_device [OF assms]) simp
  moreover have "matchJid ?servers (d @ CHR ''@'' # ''s.whatsapp.net'') = Some d"
    by (rule matchJid_plain [OF assms(1,2)]) simp
  moreover have "matchJid ?servers (d @ CHR '':'' # s @ CHR ''@'' # ''hosted'') = Some d"
    by (rule matchJid_device [OF assms]) simp
  moreover have "matchJid ?servers (d @ CHR ''@'' # ''hosted'') = Some d"
    by (rule matchJid_plain [OF assms(1,2)]) simp
  ultimately show ?thesis by (simp add: jidToE164_def)
qed

theorem jidToE164_direct_witness:
  "jidToE164 example_host ''15551234567:12@s.whatsapp.net'' (Some example_opts) =
     ([], Some ''+15551234567'')
   \<and> jidToE164 example_host ''15551234567@s.whatsapp.net'' (Some example_opts) =
     ([], Some ''+15551234567'')
   \<and> jidToE164 example_host ''15551234567:12@hosted'' (Some example_opts) =
     ([], Some ''+15551234567'')
   \<and> jidToE164 example_host ''15551234567@hosted'' (Some example_opts) =
     ([], Some ''+15551234567'')"
proof -
  have d: "''15551234567'' \<noteq> []" "\<forall>c\<in>set ''15551234567''. digit c"
    and s: "''12'' \<noteq> []" "\<forall>c\<in>set ''12''. digit c"
    by (simp_all add: digit_def)
  from jidToE164_direct [OF d s, of example_host "Some example_opts"] show ?thesis by simp
qed

section \<open>Resolving with the injected lookup\<close>

lemma resolve_direct:
  assumes "jid \<noteq> []" "snd (jidToE164 h jid opts) \<noteq> None"
  shows "resolveJidToE164 h (Some jid) opts =
         (fst (jidToE164 h jid opts), Fulfilled (snd (jidToE164 h jid opts)))"
proof -
  obtain evs direct where d: "jidToE164 h jid opts = (evs, direct)"
    by (cases "jidToE164 h jid opts")
  with assms(2) jidToE164_truthy [of h jid opts] have "truthy direct" by simp
  with assms(1) d show ?thesis by (simp add: resolveJidToE164_def)
qed

lemma resolve_after_miss:
  assumes "jid \<noteq> []" "snd (jidToE164 h jid opts) = None"
  shows "resolveJidToE164 h (Some jid) opts =
     (let evs = fst (jidToE164 h jid opts) in
      if \<not> lidSuffixed jid then (evs, Fulfilled None)
      else (case opt_getPNForLID opts of
              None \<Rightarrow> (evs, Fulfilled None)
            | Some lookup \<Rightarrow>
                (case lookup jid of
                   Throws err \<Rightarrow>
                     (evs @ LookupCall jid # fst (catchLookup h jid err), snd (catchLookup h jid err))
                 | Rejects err \<Rightarrow>
                     (evs @ LookupCall jid # fst (catchLookup h jid err), snd (catchLookup h jid err))
                 | NeverSettles \<Rightarrow> (evs @ [LookupCall jid], Pending)
                 | Resolves None \<Rightarrow> (evs @ [LookupCall jid], Fulfilled None)
                 | Resolves (Some pnJid) \<Rightarrow>
                     if pnJid = [] then (evs @ [LookupCall jid], Fulfilled None)
                     else (evs @ LookupCall jid # fst (jidToE164 h pnJid opts),
                           Fulfilled (snd (jidToE164 h pnJid opts))))))"
proof -
  obtain evs direct where d: "jidToE164 h jid opts = (evs, direct)"
    by (cases "jidToE164 h jid opts")
  with assms(2) have "direct = None" by simp
  with assms(1) d show ?thesis
    by (simp add: resolveJidToE164_def Let_def
        split: option.splits lookup_outcome.splits prod.splits)
qed

lemma catchLookup_printable:
  assumes "shouldLogVerbose h \<longrightarrow> (\<exists>msg. err = Error msg)"
  shows "snd (catchLookup h jid err) = Fulfilled None"
  using assms by (auto simp: catchLookup_def)

lemma lidSuffixed_nonempty: "lidSuffixed jid \<Longrightarrow> jid \<noteq> []"
  by (auto simp: lidSuffixed_def endsWith_def)

text \<open>
  C2. For a LID-form JID for which every resolved directory misses, when a lookup
  capability is supplied and resolves to a non-empty JID \<open>pn\<close>, \<open>resolveJidToE164\<close>
  fulfils with what \<open>jidToE164\<close> gives for \<open>pn\<close> (null when \<open>pn\<close> does not decode),
  after calling the capability once, with the original JID; when \<open>pn\<close> is a
  phone-bearing JID with digits \<open>d\<close> the result is \<open>+d\<close>.
\<close>

theorem resolveJidToE164_lookup:
  assumes lid: "matchJid [''lid'', ''hosted.lid''] jid = Some lid"
    and nomap: "\<forall>d\<in>set (resolveLidMappingDirs h opts). miss h (path_join h d (mappingFilename lid))"
    and cap: "opt_getPNForLID opts = Some lookup"
    and ret: "lookup jid = Resolves (Some pn)" "pn \<noteq> []"
  shows "resolveJidToE164 h (Some jid) opts =
           (fst (jidToE164 h jid opts) @ LookupCall jid # fst (jidToE164 h pn opts),
            Fulfilled (snd (jidToE164 h pn opts)))
         \<and> (\<forall>d. matchJid [''s.whatsapp.net'', ''hosted''] pn = Some d \<longrightarrow>
               snd (resolveJidToE164 h (Some jid) opts) = Fulfilled (Some (''+'' @ d)))"
proof -
  have suf: "lidSuffixed jid" by (rule matchJid_lid_suffixed [OF lid])
  then have ne: "jid \<noteq> []" by (rule lidSuffixed_nonempty)
  have none: "snd (jidToE164 h jid opts) = None"
    by (rule jidToE164_no_mapping [OF lid nomap])
  have main: "resolveJidToE164 h (Some jid) opts =
           (fst (jidToE164 h jid opts) @ LookupCall jid # fst (jidToE164 h pn opts),
            Fulfilled (snd (jidToE164 h pn opts)))"
    using suf cap ret by (simp add: resolve_after_miss [OF ne none] Let_def)
  then show ?thesis by (simp add: jidToE164_direct_match)
qed

theorem resolveJidToE164_lookup_witness:
  "matchJid [''lid'', ''hosted.lid''] ''777@lid'' = Some ''777''
   \<and> opt_getPNForLID (Some example_opts) = Some example_lookup
   \<and> example_lookup ''777@lid'' = Resolves (Some ''15550001111:3@s.whatsapp.net'')
   \<and> snd (jidToE164 example_host ''15550001111:3@s.whatsapp.net'' (Some example_opts)) =
       Some ''+15550001111''
   \<and> snd (resolveJidToE164 example_host (Some ''777@lid'') (Some example_opts)) =
       Fulfilled (Some ''+15550001111'')"
proof -
  let ?h = example_host
  note ev = example_host_def example_join_def mappingFilename_def example_files_def
    example_parse_def example_normalize_def
  have lid: "matchJid [''lid'', ''hosted.lid''] ''777@lid'' = Some ''777''"
    by (simp add: matchJid_def digit_def)
  have dirs: "resolveLidMappingDirs ?h (Some example_opts) =
      [''/auth'', ''/extra'', ''/other'', ''/oauth'', ''/cfg/credentials'']"
    by (simp add: resolveLidMappingDirs_def example_host_def example_opts_def addDir_def
        set_add_def opt_authDir_def opt_lidMappingDirs_def example_join_def)
  have nomap: "\<forall>d\<in>set (resolveLidMappingDirs ?h (Some example_opts)).
      miss ?h (path_join ?h d (mappingFilename ''777''))"
    unfolding dirs by (simp add: miss_def ev)
  have cap: "opt_getPNForLID (Some example_opts) = Some example_lookup"
    by (simp add: opt_getPNForLID_def example_opts_def)
  have ret: "example_lookup ''777@lid'' = Resolves (Some ''15550001111:3@s.whatsapp.net'')"
    "''15550001111:3@s.whatsapp.net'' \<noteq> []"
    by (simp_all add: example_lookup_def)
  have pn: "matchJid [''s.whatsapp.net'', ''hosted''] ''15550001111:3@s.whatsapp.net'' =
      Some ''15550001111''"
    by (simp add: matchJid_def digit_def)
  from resolveJidToE164_lookup [OF lid nomap cap ret] pn lid cap ret(1)
  show ?thesis by (simp add: jidToE164_direct_match)
qed

text \<open>
  C3. The claim does not hold of the code: the \<^verbatim>\<open>catch\<close> block meant to absorb the
  failure can throw itself. With verbose logging on, a LID without local mapping and a
  capability whose promise rejects with a value \<^verbatim>\<open>String\<close> cannot render, the
  capability is called, the conversion in the \<^verbatim>\<open>catch\<close> block throws a TypeError, and
  the promise of \<open>resolveJidToE164\<close> rejects with it instead of being fulfilled with
  null.
\<close>

theorem resolveJidToE164_catch_rejects:
  "shouldLogVerbose example_host
   \<and> opt_getPNForLID (Some unprintable_opts) = Some unprintable_lookup
   \<and> unprintable_lookup ''777@lid'' =
       Rejects (NoString (Error ''TypeError: Cannot convert object to primitive value''))
   \<and> snd (jidToE164 example_host ''777@lid'' (Some unprintable_opts)) = None
   \<and> resolveJidToE164 example_host (Some ''777@lid'') (Some unprintable_opts) =
       ([ReadFile ''/auth/lid-mapping-777_reverse.json'',
         ReadFile ''/extra/lid-mapping-777_reverse.json'',
         ReadFile ''/other/lid-mapping-777_reverse.json'',
         ReadFile ''/oauth/lid-mapping-777_reverse.json'',
         ReadFile ''/cfg/credentials/lid-mapping-777_reverse.json'',
         LogVerbose ''LID mapping not found for 777; skipping inbound message'',
         LookupCall ''777@lid''],
        Rejected (Error ''TypeError: Cannot convert object to primitive value''))"
proof -
  let ?h = example_host
  note ev = example_host_def example_join_def mappingFilename_def example_files_def
    example_parse_def example_normalize_def
  have lid: "matchJid [''lid'', ''hosted.lid''] ''777@lid'' = Some ''777''"
    by (simp add: matchJid_def digit_def)
  have dirs: "resolveLidMappingDirs ?h (Some unprintable_opts) =
      [''/auth'', ''/extra'', ''/other'', ''/oauth'', ''/cfg/credentials'']"
    by (simp add: resolveLidMappingDirs_def example_host_def unprintable_opts_def
        example_opts_def addDir_def set_add_def opt_authDir_def opt_lidMappingDirs_def
        example_join_def)
  have rd: "readLidReverseMapping ?h ''777'' (Some unprintable_opts) =
      ([ReadFile ''/auth/lid-mapping-777_reverse.json'',
        ReadFile ''/extra/lid-mapping-777_reverse.json'',
        ReadFile ''/other/lid-mapping-777_reverse.json'',
        ReadFile ''/oauth/lid-mapping-777_reverse.json'',
        ReadFile ''/cfg/credentials/lid-mapping-777_reverse.json''], None)"
    unfolding readLidReverseMapping_def dirs by (simp add: tryRead_def ev)
  have lg: "(case opt_logMissing (Some unprintable_opts) of
      Some b \<Rightarrow> b | None \<Rightarrow> shouldLogVerbose ?h) = True"
    by (simp add: opt_logMissing_def unprintable_opts_def example_opts_def example_host_def)
  have dec: "jidToE164 ?h ''777@lid'' (Some unprintable_opts) =
      ([ReadFile ''/auth/lid-mapping-777_reverse.json'',
        ReadFile ''/extra/lid-mapping-777_reverse.json'',
        ReadFile ''/other/lid-mapping-777_reverse.json'',
        ReadFile ''/oauth/lid-mapping-777_reverse.json'',
        ReadFile ''/cfg/credentials/lid-mapping-777_reverse.json'',
        LogVerbose ''LID mapping not found for 777; skipping inbound message''], None)"
    by (simp add: jidToE164_lid_match [OF lid] rd lg)
  have verbose: "shouldLogVerbose ?h" by (simp add: example_host_def)
  have cap: "opt_getPNForLID (Some unprintable_opts) = Some unprintable_lookup"
    by (simp add: opt_getPNForLID_def unprintable_opts_def example_opts_def)
  have suf: "lidSuffixed ''777@lid''" by (rule matchJid_lid_suffixed [OF lid])
  have ne: "''777@lid'' \<noteq> []" by simp
  have none: "snd (jidToE164 ?h ''777@lid'' (Some unprintable_opts)) = None"
    by (simp add: dec)
  have "resolveJidToE164 ?h (Some ''777@lid'') (Some unprintable_opts) =
      (fst (jidToE164 ?h ''777@lid'' (Some unprintable_opts)) @ [LookupCall ''777@lid''],
       Rejected (Error ''TypeError: Cannot convert object to primitive value''))"
    using suf cap verbose
    by (simp add: resolve_after_miss [OF ne none] Let_def unprintable_lookup_def catchLookup_def)
  with dec verbose cap show ?thesis by (simp add: unprintable_lookup_def)
qed

text \<open>
  C8, as stated, fails in its case (c): a LID-suffixed JID whose mapping file exists
  resolves to the mapped number although no lookup capability was supplied.
\<close>

theorem resolveJidToE164_no_lookup_counterexample:
  "lidSuffixed ''55512@lid''
   \<and> opt_getPNForLID (Some no_lookup_opts) = None
   \<and> snd (resolveJidToE164 example_host (Some ''55512@lid'') (Some no_lookup_opts)) =
       Fulfilled (Some ''+15551234567'')
   \<and> snd (resolveJidToE164 example_host (Some ''55512@lid'') (Some no_lookup_opts)) \<noteq>
       Fulfilled None"
proof -
  let ?h = example_host
  note ev = example_host_def example_join_def mappingFilename_def example_files_def
    example_parse_def example_normalize_def
  have lid: "matchJid [''lid'', ''hosted.lid''] ''55512@lid'' = Some ''55512''"
    by (simp add: matchJid_def digit_def)
  have dirs: "resolveLidMappingDirs ?h (Some no_lookup_opts) =
      [''/auth'', ''/extra'', ''/other'', ''/oauth'', ''/cfg/credentials'']"
    by (simp add: resolveLidMappingDirs_def example_host_def no_lookup_opts_def example_opts_def
        addDir_def set_add_def opt_authDir_def opt_lidMappingDirs_def example_join_def)
  have "readLidReverseMapping ?h ''55512'' (Some no_lookup_opts) =
      ([ReadFile ''/auth/lid-mapping-55512_reverse.json'',
        ReadFile ''/extra/lid-mapping-55512_reverse.json''], Some ''+15551234567'')"
    unfolding readLidReverseMapping_def dirs by (simp add: tryRead_def ev digit_def)
  then have "snd (jidToE164 ?h ''55512@lid'' (Some no_lookup_opts)) = Some ''+15551234567''"
    by (simp add: jidToE164_lid_match [OF lid])
  then have "snd (resolveJidToE164 ?h (Some ''55512@lid'') (Some no_lookup_opts)) =
      Fulfilled (Some ''+15551234567'')"
    by (simp add: resolve_direct)
  moreover have "lidSuffixed ''55512@lid''" by (rule matchJid_lid_suffixed [OF lid])
  moreover have "opt_getPNForLID (Some no_lookup_opts) = None"
    by (simp add: opt_getPNForLID_def no_lookup_opts_def example_opts_def)
  ultimately show ?thesis by simp
qed

text \<open>
  C8, amended. \<open>resolveJidToE164\<close> fulfils with null and never calls the lookup
  capability, whichever capability was supplied, when (a) the JID is absent or empty, or
  the direct decode misses and (b) the JID does not end with \<^verbatim>\<open>@lid\<close> or
  \<^verbatim>\<open>@hosted.lid\<close>, or (c) no lookup capability was supplied.
\<close>

theorem resolveJidToE164_no_lookup_call:
  assumes "jid = None \<or> jid = Some []
           \<or> (\<exists>j. jid = Some j \<and> snd (jidToE164 h j opts) = None
                  \<and> (\<not> lidSuffixed j \<or> opt_getPNForLID opts = None))"
  shows "snd (resolveJidToE164 h jid opts) = Fulfilled None
         \<and> (\<forall>x. LookupCall x \<notin> set (fst (resolveJidToE164 h jid opts)))"
proof -
  consider "jid = None \<or> jid = Some []"
    | j where "jid = Some j" "j \<noteq> []" "snd (jidToE164 h j opts) = None"
        "\<not> lidSuffixed j \<or> opt_getPNForLID opts = None"
    using assms by blast
  then show ?thesis
  proof cases
    case 1
    then show ?thesis by (auto simp: resolveJidToE164_def)
  next
    case 2
    from 2(4) have "resolveJidToE164 h (Some j) opts = (fst (jidToE164 h j opts), Fulfilled None)"
      by (auto simp: resolve_after_miss [OF 2(2,3)] Let_def)
    with 2(1) show ?thesis by (simp add: jidToE164_no_lookup)
  qed
qed

theorem resolveJidToE164_no_lookup_call_witness:
  "resolveJidToE164 example_host None (Some example_opts) = ([], Fulfilled None)
   \<and> snd (jidToE164 example_host ''120363041234567890@g.us'' (Some example_opts)) = None
   \<and> \<not> lidSuffixed ''120363041234567890@g.us''
   \<and> opt_getPNForLID (Some example_opts) = Some example_lookup
   \<and> resolveJidToE164 example_host (Some ''120363041234567890@g.us'') (Some example_opts) =
       ([], Fulfilled None)
   \<and> LookupCall ''120363041234567890@g.us'' \<notin>
       set (fst (resolveJidToE164 example_host (Some ''120363041234567890@g.us'') (Some example_opts)))"
proof -
  let ?g = "''120363041234567890@g.us''"
  have dec: "jidToE164 example_host ?g (Some example_opts) = ([], None)"
    by (simp add: jidToE164_def matchJid_def digit_def)
  have suf: "\<not> lidSuffixed ?g" by (simp add: lidSuffixed_def endsWith_def)
  have cap: "opt_getPNForLID (Some example_opts) = Some example_lookup"
    by (simp add: opt_getPNForLID_def example_opts_def)
  have hyp: "Some ?g = None \<or> Some ?g = Some []
      \<or> (\<exists>j. Some ?g = Some j \<and> snd (jidToE164 example_host j (Some example_opts)) = None
             \<and> (\<not> lidSuffixed j \<or> opt_getPNForLID (Some example_opts) = None))"
    using dec suf by simp
  from resolveJidToE164_no_lookup_call [OF hyp] dec suf cap
  show ?thesis by (simp add: resolveJidToE164_def)
qed

section \<open>From a phone number to a JID\<close>



lemma dropWhile_shorter:
  assumes "xs \<noteq> []" "P (hd xs)"
  shows "length (dropWhile P xs) < length xs"
proof (cases xs)
  case Nil
  with assms show ?thesis by simp
next
  case (Cons x ys)
  with assms have "dropWhile P xs = dropWhile P ys" by simp
  moreover have "length (dropWhile P ys) \<le> length ys" by (rule length_dropWhile_le)
  ultimately show ?thesis using Cons by simp
qed

lemma dropWhile_keeps:
  assumes "xs \<noteq> []" "\<not> P (hd xs)"
  shows "dropWhile P xs = xs"
  using assms by (cases xs) simp_all

lemma length_trim: "length (trim s) \<le> length (dropWhile whitespace s)"
proof -
  have "length (trim s) = length (dropWhile whitespace (rev (dropWhile whitespace s)))"
    by (simp add: trim_def)
  also have "\<dots> \<le> length (rev (dropWhile whitespace s))" by (rule length_dropWhile_le)
  finally show ?thesis by simp
qed

lemma trim_fixed_hd:
  assumes "trim s = s" "s \<noteq> []"
  shows "\<not> whitespace (hd s)"
proof
  assume "whitespace (hd s)"
  with assms(2) have "length (dropWhile whitespace s) < length s" by (rule dropWhile_shorter)
  with length_trim [of s] assms(1) show False by simp
qed

lemma trim_fixed_last:
  assumes "trim s = s" "s \<noteq> []"
  shows "\<not> whitespace (last s)"
proof
  assume ws: "whitespace (last s)"
  from trim_fixed_hd [OF assms] assms(2) have d: "dropWhile whitespace s = s"
    by (intro dropWhile_keeps)
  from assms(2) ws have "length (dropWhile whitespace (rev s)) < length (rev s)"
    by (intro dropWhile_shorter) (simp_all add: hd_rev)
  then have "length (trim s) < length s" by (simp add: trim_def d)
  with assms(1) show False by simp
qed

lemma trim_padded:
  assumes l: "\<forall>c\<in>set l. whitespace c" and r: "\<forall>c\<in>set r. whitespace c" and s: "trim s = s"
  shows "trim (l @ s @ r) = s"
proof (cases "s = []")
  case True
  from l r have "\<forall>c\<in>set (l @ r). whitespace c" by auto
  then have d: "dropWhile whitespace (l @ r) = []" by (rule dropWhile_eq_Nil_conv [THEN iffD2])
  have "trim (l @ r) = []" unfolding trim_def d by simp
  with True show ?thesis by simp
next
  case False
  from trim_fixed_hd [OF s False] False have hd: "dropWhile whitespace (s @ r) = s @ r"
    by (intro dropWhile_keeps) simp_all
  from trim_fixed_last [OF s False] False have revs: "dropWhile whitespace (rev s) = rev s"
    by (intro dropWhile_keeps) (simp_all add: hd_rev)
  have 1: "dropWhile whitespace (l @ s @ r) = dropWhile whitespace (s @ r)"
    using l by (intro dropWhile_append2) simp
  have 2: "dropWhile whitespace (rev r @ rev s) = dropWhile whitespace (rev s)"
    using r by (intro dropWhile_append2) simp
  show ?thesis unfolding trim_def 1 hd rev_append 2 revs by simp
qed

lemma startsWith_self: "startsWith (p @ xs) p"
  by (simp add: startsWith_def)

lemma drop_own_prefix: "drop (length p) (p @ xs) = xs"
  by simp

lemma startsWith_after_whitespace:
  assumes "whitespace c" "p \<noteq> []" "\<not> whitespace (hd p)"
  shows "\<not> startsWith (c # xs) p"
  using assms by (cases p) (auto simp: startsWith_def)

lemma startsWith_before_whitespace:
  assumes np: "\<not> startsWith s p" and r: "\<forall>c\<in>set r. whitespace c"
    and p: "p \<noteq> []" "\<not> whitespace (last p)"
  shows "\<not> startsWith (s @ r) p"
proof
  assume "startsWith (s @ r) p"
  then have eq: "take (length p) s @ take (length p - length s) r = p"
    by (simp add: startsWith_def)
  show False
  proof (cases "length p \<le> length s")
    case True
    with eq np show False by (simp add: startsWith_def)
  next
    case False
    define t where "t = take (length p - length s) r"
    from False eq have st: "s @ t = p" by (simp add: t_def)
    then have "length s + length t = length p" by (metis length_append)
    with False have t: "t \<noteq> []" by auto
    with st have "last p = last t" by auto
    moreover from t have "last t \<in> set t" by simp
    moreover have "set t \<subseteq> set r" unfolding t_def by (rule set_take_subset)
    ultimately have "whitespace (last p)" using r by auto
    with p(2) show False by simp
  qed
qed

lemma withoutPrefix_padded:
  assumes l: "\<forall>c\<in>set l. whitespace c" and r: "\<forall>c\<in>set r. whitespace c" and s: "trim s = s"
    and np: "\<not> startsWith s ''whatsapp:''"
  shows "withoutPrefix (''whatsapp:'' @ l @ s @ r) = s" and "withoutPrefix (l @ s @ r) = s"
proof -
  have hd: "\<not> whitespace (hd ''whatsapp:'')" and last: "\<not> whitespace (last ''whatsapp:'')"
    by (simp_all add: whitespace_def)
  have ne: "''whatsapp:'' \<noteq> []" by simp
  have "startsWith (''whatsapp:'' @ l @ s @ r) ''whatsapp:''" by (rule startsWith_self)
  moreover have "drop (length ''whatsapp:'') (''whatsapp:'' @ l @ s @ r) = l @ s @ r"
    by (rule drop_own_prefix)
  ultimately show "withoutPrefix (''whatsapp:'' @ l @ s @ r) = s"
    unfolding withoutPrefix_def by (simp only: if_True trim_padded [OF l r s])
  have "\<not> startsWith (l @ s @ r) ''whatsapp:''"
  proof (cases l)
    case Nil
    with startsWith_before_whitespace [OF np r ne last] show ?thesis by simp
  next
    case (Cons c l')
    with l have "whitespace c" by simp
    from startsWith_after_whitespace [OF this ne hd] Cons show ?thesis by simp
  qed
  then show "withoutPrefix (l @ s @ r) = s"
    unfolding withoutPrefix_def by (simp only: if_False trim_padded [OF l r s])
qed





text \<open>
  C9, as stated, fails: two inputs that differ only in a leading space give different
  results, because the prefix is removed before the white space and only at the very
  start of the input.
\<close>

theorem toWhatsappJid_whitespace_counterexample:
  "toWhatsappJid example_host '' whatsapp:123@s.whatsapp.net'' = Inr ''whatsapp:123@s.whatsapp.net''
   \<and> toWhatsappJid example_host ''whatsapp:123@s.whatsapp.net'' = Inr ''123@s.whatsapp.net''
   \<and> toWhatsappJid example_host '' whatsapp:123@s.whatsapp.net'' \<noteq>
       toWhatsappJid example_host ''whatsapp:123@s.whatsapp.net''"
  by (simp add: toWhatsappJid_def withoutPrefix_def startsWith_def trim_def whitespace_def)

text \<open>
  C9, amended. \<open>toWhatsappJid\<close> removes a \<^verbatim>\<open>whatsapp:\<close> that starts the input, then the
  surrounding white space; a remainder that contains \<^verbatim>\<open>@\<close> is returned as it is,
  any other is normalized, stripped of its non-digits and given the suffix
  \<^verbatim>\<open>@s.whatsapp.net\<close>, and a rejection by the normalizer is passed on. So for a core
  \<open>s\<close> without surrounding white space that does not itself start with \<^verbatim>\<open>whatsapp:\<close>,
  the inputs \<open>s\<close>, \<open>s\<close> within white space, and \<^verbatim>\<open>whatsapp:\<close> followed by \<open>s\<close> within
  white space give the same result; and when the normalizer maps
  \<^verbatim>\<open>+1 (555) 123-4567\<close> to \<^verbatim>\<open>+15551234567\<close> the result for it is
  \<^verbatim>\<open>15551234567@s.whatsapp.net\<close>.
\<close>

theorem toWhatsappJid_prefix_whitespace:
  assumes l: "\<forall>c\<in>set l. whitespace c" and r: "\<forall>c\<in>set r. whitespace c"
    and s: "trim s = s" and np: "\<not> startsWith s ''whatsapp:''"
  shows "toWhatsappJid h (''whatsapp:'' @ l @ s @ r) = toWhatsappJid h s
       \<and> toWhatsappJid h (l @ s @ r) = toWhatsappJid h s
       \<and> toWhatsappJid h s =
           (if CHR ''@'' \<in> set s then Inr s
            else (case normalizeE164 h s of
                    Inl e \<Rightarrow> Inl e
                  | Inr e164 \<Rightarrow> Inr (filter digit e164 @ ''@s.whatsapp.net'')))
       \<and> (normalizeE164 h ''+1 (555) 123-4567'' = Inr ''+15551234567'' \<longrightarrow>
            toWhatsappJid h ''+1 (555) 123-4567'' = Inr ''15551234567@s.whatsapp.net'')"
proof -
  have nil: "\<forall>c\<in>set ([] :: string). whitespace c" by simp
  from withoutPrefix_padded(2) [OF nil nil s np] have core: "withoutPrefix s = s" by simp
  have ex: "withoutPrefix ''+1 (555) 123-4567'' = ''+1 (555) 123-4567''"
    by (simp add: withoutPrefix_def startsWith_def trim_def whitespace_def)
  have a: "toWhatsappJid h (''whatsapp:'' @ l @ s @ r) = toWhatsappJid h s"
    by (simp only: toWhatsappJid_def withoutPrefix_padded [OF l r s np] core)
  have b: "toWhatsappJid h (l @ s @ r) = toWhatsappJid h s"
    by (simp only: toWhatsappJid_def withoutPrefix_padded [OF l r s np] core)
  have c: "toWhatsappJid h s =
           (if CHR ''@'' \<in> set s then Inr s
            else (case normalizeE164 h s of
                    Inl e \<Rightarrow> Inl e
                  | Inr e164 \<Rightarrow> Inr (filter digit e164 @ ''@s.whatsapp.net'')))"
    by (simp add: toWhatsappJid_def core)
  have d: "normalizeE164 h ''+1 (555) 123-4567'' = Inr ''+15551234567'' \<longrightarrow>
            toWhatsappJid h ''+1 (555) 123-4567'' = Inr ''15551234567@s.whatsapp.net''"
    by (simp add: toWhatsappJid_def ex digit_def)
  from a b c d show ?thesis by (intro conjI)
qed

theorem toWhatsappJid_prefix_whitespace_witness:
  "normalizeE164 example_host ''+1 (555) 123-4567'' = Inr ''+15551234567''
   \<and> toWhatsappJid example_host ''+1 (555) 123-4567'' = Inr ''15551234567@s.whatsapp.net''
   \<and> toWhatsappJid example_host (''whatsapp:'' @ '' '' @ ''+1 (555) 123-4567'' @ ''  '') =
       Inr ''15551234567@s.whatsapp.net''
   \<and> toWhatsappJid example_host ('' '' @ ''+1 (555) 123-4567'' @ ''  '') =
       Inr ''15551234567@s.whatsapp.net''"
proof -
  let ?s = "''+1 (555) 123-4567''"
  have l: "\<forall>c\<in>set '' ''. whitespace c" and r: "\<forall>c\<in>set ''  ''. whitespace c"
    by (simp_all add: whitespace_def)
  have s: "trim ?s = ?s" by (simp add: trim_def whitespace_def)
  have np: "\<not> startsWith ?s ''whatsapp:''" by (simp add: startsWith_def)
  have acc: "normalizeE164 example_host ?s = Inr ''+15551234567''"
    by (simp add: example_host_def example_normalize_def digit_def)
  from toWhatsappJid_prefix_whitespace [OF l r s np, of example_host] acc
  show ?thesis by (simp add: digit_def)
qed

section \<open>Further properties\<close>

text \<open>
  Prefixing is idempotent: \<open>withWhatsAppPrefix\<close> leaves a string alone that already has
  the prefix, and its result always has it.
\<close>

theorem withWhatsAppPrefix_idempotent:
  "withWhatsAppPrefix (withWhatsAppPrefix number) = withWhatsAppPrefix number
   \<and> startsWith (withWhatsAppPrefix number) ''whatsapp:''"
proof (cases "startsWith number ''whatsapp:''")
  case True
  then show ?thesis by (simp add: withWhatsAppPrefix_def)
next
  case False
  have "startsWith (''whatsapp:'' @ number) ''whatsapp:''" by (rule startsWith_self)
  with False show ?thesis by (simp only: withWhatsAppPrefix_def if_False if_True simp_thms)
qed

text \<open>
  A LID with no reverse-mapping file: when the file cannot be read in any resolved
  directory, \<open>jidToE164\<close> gives null for the LID with either LID suffix.
\<close>

theorem jidToE164_lid_without_file:
  assumes lid: "lid \<noteq> []" "\<forall>c\<in>set lid. digit c"
    and nofile: "\<forall>d\<in>set (resolveLidMappingDirs h opts).
                   \<exists>e. readFileSync h (path_join h d (mappingFilename lid)) = Inl e"
  shows "snd (jidToE164 h (lid @ ''@lid'') opts) = None
       \<and> snd (jidToE164 h (lid @ ''@hosted.lid'') opts) = None"
proof -
  from nofile have nomap:
    "\<forall>d\<in>set (resolveLidMappingDirs h opts). miss h (path_join h d (mappingFilename lid))"
    by (auto simp: miss_def)
  have "matchJid [''lid'', ''hosted.lid''] (lid @ CHR ''@'' # ''lid'') = Some lid"
    by (rule matchJid_plain [OF lid]) simp
  from jidToE164_no_mapping [OF this nomap]
  have a: "snd (jidToE164 h (lid @ ''@lid'') opts) = None" by simp
  have "matchJid [''lid'', ''hosted.lid''] (lid @ CHR ''@'' # ''hosted.lid'') = Some lid"
    by (rule matchJid_plain [OF lid]) simp
  from jidToE164_no_mapping [OF this nomap]
  have b: "snd (jidToE164 h (lid @ ''@hosted.lid'') opts) = None" by simp
  from a b show ?thesis by (intro conjI)
qed

theorem jidToE164_lid_without_file_witness:
  "snd (jidToE164 example_host (''777'' @ ''@lid'') (Some example_opts)) = None
   \<and> snd (jidToE164 example_host (''777'' @ ''@hosted.lid'') (Some example_opts)) = None"
proof -
  let ?h = example_host
  have lid: "''777'' \<noteq> []" "\<forall>c\<in>set ''777''. digit c" by (simp_all add: digit_def)
  have dirs: "resolveLidMappingDirs ?h (Some example_opts) =
      [''/auth'', ''/extra'', ''/other'', ''/oauth'', ''/cfg/credentials'']"
    by (simp add: resolveLidMappingDirs_def example_host_def example_opts_def addDir_def
        set_add_def opt_authDir_def opt_lidMappingDirs_def example_join_def)
  have nofile: "\<forall>d\<in>set (resolveLidMappingDirs ?h (Some example_opts)).
      \<exists>e. readFileSync ?h (path_join ?h d (mappingFilename ''777'')) = Inl e"
    unfolding dirs
    by (simp add: example_host_def example_join_def mappingFilename_def example_files_def)
  from jidToE164_lid_without_file [OF lid nofile] show ?thesis .
qed

text \<open>
  A LID with a reverse mapping: when the JID matches the LID pattern and the scan finds a
  non-empty number, \<open>jidToE164\<close> returns that number and logs nothing.
\<close>

theorem jidToE164_lid_mapped:
  assumes "matchJid [''lid'', ''hosted.lid''] jid = Some lid"
    and "readLidReverseMapping h lid opts = (evs, Some p)" and "p \<noteq> []"
  shows "jidToE164 h jid opts = (evs, Some p)"
  using assms(2,3) by (simp add: jidToE164_lid_match [OF assms(1)])

theorem jidToE164_lid_mapped_witness:
  "jidToE164 example_host ''55512:7@hosted.lid'' (Some example_opts) =
     ([ReadFile ''/auth/lid-mapping-55512_reverse.json'',
       ReadFile ''/extra/lid-mapping-55512_reverse.json''],
      Some ''+15551234567'')"
proof -
  let ?h = example_host
  have lid: "matchJid [''lid'', ''hosted.lid''] ''55512:7@hosted.lid'' = Some ''55512''"
    by (simp add: matchJid_def digit_def)
  have dirs: "resolveLidMappingDirs ?h (Some example_opts) =
      [''/auth'', ''/extra'', ''/other'', ''/oauth'', ''/cfg/credentials'']"
    by (simp add: resolveLidMappingDirs_def example_host_def example_opts_def addDir_def
        set_add_def opt_authDir_def opt_lidMappingDirs_def example_join_def)
  have rd: "readLidReverseMapping ?h ''55512'' (Some example_opts) =
      ([ReadFile ''/auth/lid-mapping-55512_reverse.json'',
        ReadFile ''/extra/lid-mapping-55512_reverse.json''], Some ''+15551234567'')"
    unfolding readLidReverseMapping_def dirs
    by (simp add: tryRead_def example_host_def example_join_def mappingFilename_def
        example_files_def example_parse_def example_normalize_def digit_def)
  have ne: "''+15551234567'' \<noteq> []" by simp
  from jidToE164_lid_mapped [OF lid rd ne] show ?thesis .
qed

text \<open>
  Where a failing capability is absorbed: when every failure of the capability is a value
  that \<^verbatim>\<open>String\<close> can render, or verbose logging is off, the promise of
  \<open>resolveJidToE164\<close> is fulfilled with what the direct decode gives, which is null
  whenever the direct decode misses.
\<close>

theorem resolveJidToE164_absorbs_failure:
  assumes cap: "opt_getPNForLID opts = Some lookup"
    and fails: "\<forall>j. \<exists>e. (lookup j = Throws e \<or> lookup j = Rejects e)
                  \<and> (shouldLogVerbose h \<longrightarrow> (\<exists>msg. e = Error msg))"
  shows "snd (resolveJidToE164 h jid opts) =
           Fulfilled (case jid of
                        None \<Rightarrow> None
                      | Some j \<Rightarrow> if j = [] then None else snd (jidToE164 h j opts))"
proof (cases jid)
  case None
  then show ?thesis by (simp add: resolveJidToE164_def)
next
  case (Some j)
  show ?thesis
  proof (cases "j = []")
    case True
    with Some show ?thesis by (simp add: resolveJidToE164_def)
  next
    case ne: False
    show ?thesis
    proof (cases "snd (jidToE164 h j opts)")
      case (Some p)
      then have "snd (jidToE164 h j opts) \<noteq> None" by simp
      from resolve_direct [OF ne this] \<open>jid = Some j\<close> ne show ?thesis by simp
    next
      case None
      from fails obtain e where e: "lookup j = Throws e \<or> lookup j = Rejects e"
        and pr: "shouldLogVerbose h \<longrightarrow> (\<exists>msg. e = Error msg)" by blast
      from pr have "snd (catchLookup h j e) = Fulfilled None" by (rule catchLookup_printable)
      with e cap None \<open>jid = Some j\<close> ne show ?thesis
        by (auto simp: resolve_after_miss [OF ne None] Let_def)
    qed
  qed
qed

theorem resolveJidToE164_absorbs_failure_witness:
  "opt_getPNForLID (Some throwing_opts) = Some throwing_lookup
   \<and> throwing_lookup ''777@lid'' = Throws (Error ''Error: not paired'')
   \<and> snd (jidToE164 example_host ''777@lid'' (Some throwing_opts)) = None
   \<and> snd (resolveJidToE164 example_host (Some ''777@lid'') (Some throwing_opts)) = Fulfilled None"
proof -
  let ?h = example_host
  note ev = example_host_def example_join_def mappingFilename_def example_files_def
    example_parse_def example_normalize_def
  have cap: "opt_getPNForLID (Some throwing_opts) = Some throwing_lookup"
    by (simp add: opt_getPNForLID_def throwing_opts_def example_opts_def)
  have fails: "\<forall>j. \<exists>e. (throwing_lookup j = Throws e \<or> throwing_lookup j = Rejects e)
      \<and> (shouldLogVerbose ?h \<longrightarrow> (\<exists>msg. e = Error msg))"
    by (simp add: throwing_lookup_def)
  have lid: "matchJid [''lid'', ''hosted.lid''] ''777@lid'' = Some ''777''"
    by (simp add: matchJid_def digit_def)
  have dirs: "resolveLidMappingDirs ?h (Some throwing_opts) =
      [''/auth'', ''/extra'', ''/other'', ''/oauth'', ''/cfg/credentials'']"
    by (simp add: resolveLidMappingDirs_def example_host_def throwing_opts_def example_opts_def
        addDir_def set_add_def opt_authDir_def opt_lidMappingDirs_def example_join_def)
  have nomap: "\<forall>d\<in>set (resolveLidMappingDirs ?h (Some throwing_opts)).
      miss ?h (path_join ?h d (mappingFilename ''777''))"
    unfolding dirs by (simp add: miss_def ev)
  from resolveJidToE164_absorbs_failure [OF cap fails, of "Some ''777@lid''"]
    jidToE164_no_mapping [OF lid nomap] cap
  show ?thesis by (simp add: throwing_lookup_def)
qed

text \<open>
  The promise of \<open>resolveJidToE164\<close> rejects only out of the \<^verbatim>\<open>catch\<close> block: verbose
  logging is on and the capability failed with a value whose conversion by
  \<^verbatim>\<open>String\<close> throws, and the promise rejects with what that conversion threw. It
  stays pending only when the capability was called and never settles.
\<close>

theorem resolveJidToE164_rejects_only_in_catch:
  "(snd (resolveJidToE164 h jid opts) = Rejected e \<longrightarrow>
      shouldLogVerbose h
      \<and> (\<exists>j lookup. jid = Some j \<and> opt_getPNForLID opts = Some lookup
            \<and> (lookup j = Throws (NoString e) \<or> lookup j = Rejects (NoString e))))
   \<and> (snd (resolveJidToE164 h jid opts) = Pending \<longrightarrow>
        (\<exists>j lookup. jid = Some j \<and> opt_getPNForLID opts = Some lookup
                     \<and> lookup j = NeverSettles))"
proof (cases jid)
  case None
  then show ?thesis by (simp add: resolveJidToE164_def)
next
  case (Some j)
  show ?thesis
  proof (cases "j = []")
    case True
    with Some show ?thesis by (simp add: resolveJidToE164_def)
  next
    case ne: False
    show ?thesis
    proof (cases "snd (jidToE164 h j opts)")
      case (Some p)
      then have "snd (jidToE164 h j opts) \<noteq> None" by simp
      from resolve_direct [OF ne this] \<open>jid = Some j\<close> show ?thesis by simp
    next
      case None
      with \<open>jid = Some j\<close> show ?thesis
        by (auto simp: resolve_after_miss [OF ne None] catchLookup_def Let_def
            split: option.splits lookup_outcome.splits exn.splits if_splits)
    qed
  qed
qed

theorem resolveJidToE164_rejects_only_in_catch_witness:
  "snd (resolveJidToE164 example_host (Some ''777@lid'') (Some throwing_opts)) \<noteq>
     Rejected (Error ''Error: not paired'')
   \<and> snd (resolveJidToE164 example_host (Some ''777@lid'') (Some throwing_opts)) \<noteq> Pending"
proof -
  have cap: "opt_getPNForLID (Some throwing_opts) = Some throwing_lookup"
    by (simp add: opt_getPNForLID_def throwing_opts_def example_opts_def)
  from resolveJidToE164_rejects_only_in_catch
    [of example_host "Some ''777@lid''" "Some throwing_opts" "Error ''Error: not paired''"]
  show ?thesis by (auto simp: cap throwing_lookup_def)
qed

text \<open>
  The two patterns of \<open>jidToE164\<close>: a JID matches, with first group \<open>d\<close>, exactly when
  it is the non-empty digit run \<open>d\<close>, optionally a colon and a non-empty digit run, an
  \<^verbatim>\<open>@\<close> and one of the pattern's alternatives, and nothing else.
\<close>

theorem matchJid_pattern:
  "matchJid servers jid = Some d \<longleftrightarrow>
     d \<noteq> [] \<and> list_all digit d \<and>
     list_ex (\<lambda>srv. jid = d @ ''@'' @ srv \<or>
        (\<exists>s. s \<noteq> [] \<and> list_all digit s \<and> jid = d @ '':'' @ s @ ''@'' @ srv)) servers"
  by (simp add: matchJid_iff list_all_iff list_ex_iff)

theorem matchJid_pattern_witness:
  "matchJid [''lid'', ''hosted.lid''] ''55512:7@hosted.lid'' = Some ''55512''
   \<and> matchJid [''s.whatsapp.net'', ''hosted''] ''55512:7@hosted.lid'' = None
   \<and> matchJid [''s.whatsapp.net'', ''hosted''] ''15551234567@s.whatsapp.net'' = Some ''15551234567''"
proof -
  have "\<exists>s. s \<noteq> [] \<and> list_all digit s \<and>
      ''55512:7@hosted.lid'' = ''55512'' @ '':'' @ s @ ''@'' @ ''hosted.lid''"
    by (rule exI [of _ "''7''"]) (simp add: digit_def)
  then have "matchJid [''lid'', ''hosted.lid''] ''55512:7@hosted.lid'' = Some ''55512''"
    by (subst matchJid_pattern) (simp add: digit_def)
  then show ?thesis by (simp add: matchJid_def digit_def)
qed

end
